theory Spec2Isabelle
  imports Main "HOL-Library.Word"
begin

section \<open>The Stack controller of the Pulumi Kubernetes operator\<close>

text \<open>
  A shallow embedding of \<^verbatim>\<open>pkg/controller/stack/stack_controller.go\<close>.
  One reconciliation pass is a pure function of the answers that the external
  collaborators (resource store, automation engine, git, HTTP, clock) give at the call
  sites of the pass. Every call site of \<^verbatim>\<open>Reconcile\<close> runs at most once per pass, so the
  answers are the fields of one record, one field per call site. The pass returns the
  controller-runtime result, the error, and the list of external operations it performed,
  in order.
\<close>

subsection \<open>Strings\<close>

text \<open>\<^verbatim>\<open>strings.HasPrefix\<close> and \<^verbatim>\<open>strings.Contains\<close> on byte strings.\<close>

fun HasPrefix :: "string \<Rightarrow> string \<Rightarrow> bool" where
  "HasPrefix s [] = True"
| "HasPrefix [] (p # ps) = False"
| "HasPrefix (c # cs) (p # ps) = (c = p \<and> HasPrefix cs ps)"

fun Contains :: "string \<Rightarrow> string \<Rightarrow> bool" where
  "Contains [] sub = (sub = [])"
| "Contains (c # cs) sub = (HasPrefix (c # cs) sub \<or> Contains cs sub)"

text \<open>
  The helper \<^verbatim>\<open>contains\<close> of the controller (lines 1468 to 1475): membership in a slice
  of strings.
\<close>

fun contains :: "string list \<Rightarrow> string \<Rightarrow> bool" where
  "contains [] s = False"
| "contains (v # list) s = (if v = s then True else contains list s)"

definition pulumiFinalizer :: string where
  "pulumiFinalizer = ''finalizer.stack.pulumi.com''"

subsection \<open>Errors\<close>

text \<open>
  A file path in normal form: the segments of a cleaned absolute path, so that
  \<^verbatim>\<open>/tmp/x\<close> is \<open>[''tmp'', ''x'']\<close> and the root directory is \<open>[]\<close>.
\<close>

type_synonym path = "string list"

text \<open>
  Every error value the modelled code builds. \<open>ExternalError\<close> is an error handed back by
  a collaborator; \<open>Wrap\<close> is \<^verbatim>\<open>errors.Wrap\<close>, \<^verbatim>\<open>errors.Wrapf\<close> and \<^verbatim>\<open>fmt.Errorf\<close> with
  \<^verbatim>\<open>%w\<close>. \<open>WrapText err2 err\<close> is \<^verbatim>\<open>errors.Wrapf(err, err2.Error())\<close>, the error \<open>err\<close>
  under the text of \<open>err2\<close>. \<open>PanicNilDereference\<close> stands for the run-time panic of a
  field read through a nil pointer. The other constructors carry the values the source
  formats into the message.
\<close>

datatype error =
    ExternalError string
  | Wrap string error
  | ErrNoGitRepo
  | ErrNoBranchOrCommit
  | ErrExactlyOneSource
  | ErrMissingEnvValue string
  | ErrMissingEnvRef
  | ErrMissingLiteralRef
  | ErrReadingPath string error
  | ErrMissingFsRef
  | ErrSecretGet string string error
  | ErrNoKeyInSecret string string string
  | ErrMissingSecretRef
  | ErrUnsupportedSelector string
  | WrapText error error
  | PanicNilDereference
  | ErrNoArtifactUrl
  | ErrNoArtifactRevision
  | ErrDownloadStatus string string
  | ErrChecksumMismatch string string
  | ErrTarInvalidName string
  | ErrTarUnsupportedType string
  | ErrWriting path error
  | ErrOnlyWrote nat path nat
  | ErrUnexpectedEOF
  | ENOTDIR path
  | EISDIR path
  | ENOENT path
  | EEXIST path

subsection \<open>Resource references\<close>

text \<open>
  Modelled from the spec: the type \<^verbatim>\<open>shared.ResourceRef\<close> and its selector constants are
  declared in the package \<^verbatim>\<open>pkg/apis/pulumi/shared\<close>, which is not among the sources. The
  spec names four variants (literal, environment variable, filesystem path, secret-store
  entry); the code switches on the selector type with a default branch, and tests each
  selector pointer for nil. \<open>ResourceSelectorOther\<close> is any other selector string.
\<close>

datatype ResourceSelectorType =
    ResourceSelectorEnv
  | ResourceSelectorFS
  | ResourceSelectorSecret
  | ResourceSelectorLiteral
  | ResourceSelectorOther string

record SecretSelector =
  Namespace :: string
  Name :: string
  Key :: string

record ResourceRef =
  SelectorType :: ResourceSelectorType
  Env :: "string option"
  LiteralRef :: "string option"
  FileSystem :: "string option"
  SecretRef :: "SecretSelector option"

text \<open>
  What resolution reads: the process environment (\<^verbatim>\<open>os.Getenv\<close> gives the empty string
  for an unset variable), the file system (\<^verbatim>\<open>os.ReadFile\<close>), and the secrets of the
  resource store by namespace and name (\<^verbatim>\<open>getLatestResource\<close>), each secret a map from
  keys to values.
\<close>

record world =
  Getenv :: "string \<Rightarrow> string"
  ReadFile :: "string \<Rightarrow> error + string"
  GetSecret :: "string \<Rightarrow> string \<Rightarrow> error + (string \<rightharpoonup> string)"

text \<open>\<^verbatim>\<open>resolveResourceRef\<close> (lines 609 to 654).\<close>

definition resolveResourceRef :: "world \<Rightarrow> string \<Rightarrow> ResourceRef \<Rightarrow> error + string" where
  "resolveResourceRef w sess_namespace ref =
     (case SelectorType ref of
        ResourceSelectorEnv \<Rightarrow>
          (case Env ref of
             Some name \<Rightarrow>
               (let resolved = Getenv w name
                in if resolved = [] then Inl (ErrMissingEnvValue name) else Inr resolved)
           | None \<Rightarrow> Inl ErrMissingEnvRef)
      | ResourceSelectorLiteral \<Rightarrow>
          (case LiteralRef ref of
             Some v \<Rightarrow> Inr v
           | None \<Rightarrow> Inl ErrMissingLiteralRef)
      | ResourceSelectorFS \<Rightarrow>
          (case FileSystem ref of
             Some p \<Rightarrow>
               (case ReadFile w p of
                  Inl err \<Rightarrow> Inl (ErrReadingPath p err)
                | Inr contents \<Rightarrow> Inr contents)
           | None \<Rightarrow> Inl ErrMissingFsRef)
      | ResourceSelectorSecret \<Rightarrow>
          (case SecretRef ref of
             Some sel \<Rightarrow>
               (let namespace = (if Namespace sel = [] then sess_namespace else Namespace sel)
                in case GetSecret w namespace (Name sel) of
                     Inl err \<Rightarrow> Inl (ErrSecretGet (Namespace sel) (Name sel) err)
                   | Inr secret_data \<Rightarrow>
                       (case secret_data (Key sel) of
                          None \<Rightarrow> Inl (ErrNoKeyInSecret (Key sel) (Namespace sel) (Name sel))
                        | Some secretVal \<Rightarrow> Inr secretVal))
           | None \<Rightarrow> Inl ErrMissingSecretRef)
      | ResourceSelectorOther t \<Rightarrow> Inl (ErrUnsupportedSelector t))"

subsection \<open>The Stack resource\<close>

text \<open>
  Modelled from the spec: the types \<^verbatim>\<open>shared.StackUpdateState\<close>, \<^verbatim>\<open>shared.StackStatus\<close>,
  \<^verbatim>\<open>shared.StackOutputs\<close>, \<^verbatim>\<open>shared.StackUpdateStatus\<close> and the state messages are declared
  in the package \<^verbatim>\<open>pkg/apis/pulumi/shared\<close>, which is not among the sources. The spec gives
  the persisted layout \<^verbatim>\<open>{lastUpdate: {state, lastAttemptedCommit, lastSuccessfulCommit,
  permalink, lastResyncTime}, outputs: map[string]JSON}\<close> and the outcomes Succeeded,
  Conflict, NotFound and Failed. \<open>EmptyStackStateMessage\<close> is the zero value of the state
  string. A time is a number, \<open>0\<close> the zero time.
\<close>

datatype StackStateMessage =
    EmptyStackStateMessage
  | SucceededStackStateMessage
  | FailedStackStateMessage

datatype StackUpdateStatus =
    StackUpdateFailed
  | StackUpdateSucceeded
  | StackUpdateConflict
  | StackNotFound

record StackUpdateState =
  State :: StackStateMessage
  LastAttemptedCommit :: string
  LastSuccessfulCommit :: string
  Permalink :: string
  LastResyncTime :: nat

text \<open>
  A Go map is either nil or a table; \<open>None\<close> is the nil map and \<open>Some []\<close> the empty table
  that \<^verbatim>\<open>make\<close> returns. The table is an association list with one pair per key, the
  JSON of a value its raw text.
\<close>

type_synonym StackOutputs = "(string \<times> string) list option"

record StackStatus =
  Outputs :: StackOutputs
  LastUpdate :: "StackUpdateState option"

definition zeroStackUpdateState :: StackUpdateState where
  "zeroStackUpdateState =
     \<lparr>State = EmptyStackStateMessage, LastAttemptedCommit = [], LastSuccessfulCommit = [],
      Permalink = [], LastResyncTime = 0\<rparr>"

text \<open>
  \<^verbatim>\<open>InlineGitRepo\<close>, \<^verbatim>\<open>SourceReference\<close> and \<^verbatim>\<open>StackSpec\<close> with the fields the controller's
  pass reads itself. The fields that only the workspace and configuration set-up read
  (access token, backend, config, secrets and their references, the git authentication)
  reach the pass through the answers of set-up, see \<open>calls\<close> below.
\<close>

record InlineGitRepo =
  ProjectRepo :: string
  Commit :: string
  Branch :: string
  ContinueResyncOnCommitMatch :: bool

record SourceReference =
  APIVersion :: string
  Kind :: string
  SourceName :: string

record StackSpec =
  Envs :: "string list"
  SecretEnvs :: "string list"
  GitRepo :: "InlineGitRepo option"
  SourceRef :: "SourceReference option"
  RepoDir :: string
  Refresh :: bool
  ExpectNoRefreshChanges :: bool
  DestroyOnFinalize :: bool
  RetryOnUpdateConflict :: bool
  UseLocalStackOnly :: bool
  ResyncFrequencySeconds :: "64 word"

text \<open>The resource: the metadata the pass reads, the spec and the status.\<close>

record Stack =
  DeletionTimestamp :: "nat option"
  Finalizers :: "string list"
  Spec :: StackSpec
  Status :: StackStatus

text \<open>
  \<^verbatim>\<open>controllerutil.AddFinalizer\<close> appends the finalizer unless it is there;
  \<^verbatim>\<open>controllerutil.RemoveFinalizer\<close> drops every occurrence.
\<close>

definition AddFinalizer :: "Stack \<Rightarrow> string \<Rightarrow> Stack" where
  "AddFinalizer o' f =
     (if contains (Finalizers o') f then o' else o'\<lparr>Finalizers := Finalizers o' @ [f]\<rparr>)"

definition RemoveFinalizer :: "Stack \<Rightarrow> string \<Rightarrow> Stack" where
  "RemoveFinalizer o' f = o'\<lparr>Finalizers := filter (\<lambda>x. x \<noteq> f) (Finalizers o')\<rparr>"

subsection \<open>Results, events and operations\<close>

text \<open>
  \<^verbatim>\<open>reconcile.Result\<close>. \<^verbatim>\<open>RequeueAfter\<close> is a \<^verbatim>\<open>time.Duration\<close>: a signed 64-bit count
  of nanoseconds, read with \<open>sint\<close>.
\<close>

record Result =
  Requeue :: bool
  RequeueAfter :: "64 word"

definition emptyResult :: Result where
  "emptyResult = \<lparr>Requeue = False, RequeueAfter = 0\<rparr>"

definition Second :: "64 word" where
  "Second = 1000000000"

datatype StackEvent =
    StackConfigInvalidEvent
  | StackGitAuthFailureEvent
  | StackInitializationFailureEvent
  | StackUpdateDetectedEvent
  | StackUpdateConflictDetectedEvent
  | StackNotFoundEvent
  | StackOutputRetrievalFailureEvent
  | StackUpdateFailureEvent
  | StackUpdateSuccessfulEvent

text \<open>
  The external operations of a pass. \<open>UpdateResource\<close> and \<open>UpdateResourceStatus\<close> carry
  the object that is written to the store.
\<close>

datatype op =
    ClientGetStack
  | ClientGetSource
  | EmitEvent StackEvent
  | SetupGitAuthOp
  | AddSSHKeysToKnownHosts
  | SetupWorkdirWithGitRepoOp
  | MkdirTemp
  | HttpGet string
  | Untar
  | NewLocalWorkspace
  | SetEnvRefsForWorkspaceOp
  | RemoveAllRootDir
  | EnsureStackOp
  | SetEnvsOp
  | SetSecretEnvsOp
  | GetLatestResource
  | UpdateResource Stack
  | UpdateResourceStatus Stack
  | Sleep2s
  | StackInfo
  | RefreshOp bool
  | UpOp
  | DestroyOp
  | RemoveStackOp
  | WaitForDeletion
  | CleanupPulumiDir

type_synonym outcome = "Result \<times> error option"

text \<open>
  A part of the pass either returns from \<^verbatim>\<open>Reconcile\<close> (with the operations performed so
  far) or goes on with a value.
\<close>

datatype 'a step = Return outcome "op list" | Continue 'a

subsection \<open>The file system and the extraction of an archive\<close>

text \<open>
  The file system that \<^verbatim>\<open>untar\<close> writes to: a partial map from cleaned absolute paths to
  nodes. The model has regular files and directories only (no symbolic links), and no
  permissions: \<^verbatim>\<open>untar\<close> creates none, and its destination is a fresh temporary
  directory.
\<close>

datatype node = Dir | File string

type_synonym fs = "path \<Rightarrow> node option"

text \<open>Splitting a slash-separated name into its segments (\<open>''a//b''\<close> has an empty one).\<close>

fun split_slash :: "string \<Rightarrow> string list" where
  "split_slash [] = [] # []"
| "split_slash (c # cs) =
     (if c = CHR ''/'' then [] # split_slash cs
      else (case split_slash cs of
              [] \<Rightarrow> [c] # []
            | s # ss \<Rightarrow> (c # s) # ss))"

text \<open>
  \<^verbatim>\<open>filepath.Join(dir, rel)\<close> for a cleaned absolute \<open>dir\<close> and a non-empty \<open>rel\<close> is
  \<^verbatim>\<open>Clean(dir + "/" + rel)\<close>: empty and \<^verbatim>\<open>.\<close> segments are dropped, a \<^verbatim>\<open>..\<close> segment removes
  the segment before it, and \<^verbatim>\<open>..\<close> at the root stays at the root. \<^verbatim>\<open>filepath.FromSlash\<close>
  is the identity where the separator is the slash. \<^verbatim>\<open>filepath.Dir\<close> of a cleaned
  absolute path drops the last segment.
\<close>

fun clean_onto :: "path \<Rightarrow> string list \<Rightarrow> path" where
  "clean_onto p [] = p"
| "clean_onto p (s # ss) =
     (if s = [] \<or> s = ''.'' then clean_onto p ss
      else if s = ''..'' then clean_onto (butlast p) ss
      else clean_onto (p @ [s]) ss)"

definition FromSlash :: "string \<Rightarrow> string" where
  "FromSlash name = name"

definition Join :: "path \<Rightarrow> string \<Rightarrow> path" where
  "Join dir rel = clean_onto dir (split_slash rel)"

definition DirOf :: "path \<Rightarrow> path" where
  "DirOf p = butlast p"

text \<open>
  \<^verbatim>\<open>os.Mkdir\<close>, \<^verbatim>\<open>os.MkdirAll\<close> and \<^verbatim>\<open>os.OpenFile\<close> with
  \<^verbatim>\<open>O_RDWR|O_CREATE|O_TRUNC\<close>, on this file system. \<^verbatim>\<open>MkdirAll\<close> succeeds on an existing
  directory, fails on an existing file, and otherwise makes the parent first (the parent
  of a top-level path is the root, which it does not make).
\<close>

definition Mkdir :: "path \<Rightarrow> fs \<Rightarrow> error option \<times> fs" where
  "Mkdir p t =
     (case t p of
        Some n \<Rightarrow> (Some (EEXIST p), t)
      | None \<Rightarrow>
          (case t (butlast p) of
             Some Dir \<Rightarrow> (None, t(p \<mapsto> Dir))
           | Some (File d) \<Rightarrow> (Some (ENOTDIR p), t)
           | None \<Rightarrow> (Some (ENOENT p), t)))"

function MkdirAll :: "path \<Rightarrow> fs \<Rightarrow> error option \<times> fs" where
  "MkdirAll p t =
     (case t p of
        Some Dir \<Rightarrow> (None, t)
      | Some (File d) \<Rightarrow> (Some (ENOTDIR p), t)
      | None \<Rightarrow>
          (if length p \<le> 1 then Mkdir p t
           else (case MkdirAll (butlast p) t of
                   (Some err, t1) \<Rightarrow> (Some err, t1)
                 | (None, t1) \<Rightarrow> Mkdir p t1)))"
  by pat_completeness auto
termination
  by (relation "measure (\<lambda>(p, t). length p)") auto

definition OpenFile :: "path \<Rightarrow> fs \<Rightarrow> error option \<times> fs" where
  "OpenFile p t =
     (case t p of
        Some Dir \<Rightarrow> (Some (EISDIR p), t)
      | Some (File d) \<Rightarrow> (None, t(p \<mapsto> File []))
      | None \<Rightarrow>
          (case t (butlast p) of
             Some Dir \<Rightarrow> (None, t(p \<mapsto> File []))
           | Some (File d) \<Rightarrow> (Some (ENOTDIR p), t)
           | None \<Rightarrow> (Some (ENOENT p), t)))"

text \<open>
  An entry of a tar stream as \<^verbatim>\<open>untar\<close> reads it: the name, the class of
  \<^verbatim>\<open>f.FileInfo().Mode()\<close> (regular, directory, or anything else: symbolic link, device,
  pipe), the size in the header, and the bytes that the reader has for the entry. A
  stream is a list of items, its end the end of the archive; \<open>TarError\<close> is a failure of
  \<^verbatim>\<open>tr.Next()\<close>.
\<close>

datatype FileMode = ModeRegular | ModeDir | ModeOther

record TarHeader =
  EntryName :: string
  Mode :: FileMode
  Size :: nat
  Payload :: string

datatype tar_item = Entry TarHeader | TarError error

text \<open>
  \<^verbatim>\<open>io.Copy(wf, tr)\<close>: the reader yields the \<open>Size\<close> bytes of the entry, or fewer with
  an error when the stream is cut short. Returns the count, the error and the file system.
\<close>

definition Copy :: "path \<Rightarrow> TarHeader \<Rightarrow> fs \<Rightarrow> nat \<times> error option \<times> fs" where
  "Copy p f t =
     (let written = take (Size f) (Payload f)
      in (length written,
          (if length (Payload f) < Size f then Some ErrUnexpectedEOF else None),
          t(p \<mapsto> File written)))"

text \<open>
  \<^verbatim>\<open>validRelPath\<close>, the closure of \<^verbatim>\<open>untar\<close> (lines 857 to 862); the character
  \<open>CHR 0x5C\<close> is the backslash.
\<close>

definition validRelPath :: "string \<Rightarrow> bool" where
  "validRelPath p =
     (if p = [] \<or> Contains p [CHR 0x5C] \<or> HasPrefix p ''/'' \<or> Contains p ''../''
      then False else True)"

text \<open>
  The loop of \<^verbatim>\<open>untar\<close> (lines 872 to 932), with the map \<^verbatim>\<open>madeDir\<close> as the list
  of its keys. The modification time that the source computes is never used and is left
  out.
\<close>

fun untar_loop :: "path \<Rightarrow> tar_item list \<Rightarrow> path list \<Rightarrow> fs \<Rightarrow> error option \<times> fs" where
  "untar_loop dir [] madeDir t = (None, t)"
| "untar_loop dir (TarError err # rest) madeDir t = (Some (Wrap ''tar error'' err), t)"
| "untar_loop dir (Entry f # rest) madeDir t =
     (if \<not> validRelPath (EntryName f) then (Some (ErrTarInvalidName (EntryName f)), t)
      else
        (let rel = FromSlash (EntryName f);
             abs = Join dir rel
         in case Mode f of
              ModeRegular \<Rightarrow>
                (let d = DirOf abs
                 in case (if d \<notin> set madeDir then MkdirAll (DirOf abs) t else (None, t)) of
                      (Some err, t1) \<Rightarrow> (Some err, t1)
                    | (None, t1) \<Rightarrow>
                        (case OpenFile abs t1 of
                           (Some err, t2) \<Rightarrow> (Some err, t2)
                         | (None, t2) \<Rightarrow>
                             (case Copy abs f t2 of
                                (n, Some err, t3) \<Rightarrow> (Some (ErrWriting abs err), t3)
                              | (n, None, t3) \<Rightarrow>
                                  (if n \<noteq> Size f then (Some (ErrOnlyWrote n abs (Size f)), t3)
                                   else untar_loop dir rest
                                          (if d \<notin> set madeDir then d # madeDir else madeDir) t3))))
            | ModeDir \<Rightarrow>
                (case MkdirAll abs t of
                   (Some err, t1) \<Rightarrow> (Some err, t1)
                 | (None, t1) \<Rightarrow> untar_loop dir rest (abs # madeDir) t1)
            | ModeOther \<Rightarrow> (Some (ErrTarUnsupportedType (EntryName f)), t)))"

text \<open>
  \<^verbatim>\<open>untar\<close> (lines 855 to 934). Its reader is the downloaded buffer, given here as what
  \<^verbatim>\<open>gzip.NewReader\<close> and the tar reader make of it: an error of the gzip header, or the
  stream of items.
\<close>

definition untar :: "error + tar_item list \<Rightarrow> path \<Rightarrow> fs \<Rightarrow> error option \<times> fs" where
  "untar r dir t =
     (case r of
        Inl err \<Rightarrow> (Some (Wrap ''requires gzip-compressed body'' err), t)
      | Inr items \<Rightarrow> untar_loop dir items [] t)"

subsection \<open>The artifact source\<close>

text \<open>
  The source object as \<^verbatim>\<open>unstructured.NestedString\<close> reads it: each of the three fields
  of \<^verbatim>\<open>.status.artifact\<close> is a string, or is missing or not a string (\<open>None\<close>).
\<close>

record SourceObject =
  artifact_url :: "string option"
  artifact_revision :: "string option"
  artifact_checksum :: "string option"

record HttpResponse =
  StatusCode :: nat
  StatusText :: string
  Body :: "error + string"

text \<open>
  The collaborators of \<^verbatim>\<open>SetupWorkDirWithSource\<close>: the temporary directory, the HTTP
  client, the two digests (\<open>sha1sum\<close> and \<open>sha256sum\<close> give the hexadecimal text of
  \<^verbatim>\<open>hasher.Sum(nil)\<close> over the bytes written), the decoder of the archive, and the
  construction of the workspace with its environment.
\<close>

record source_calls =
  MkdirTempResult :: "error + path"
  NewRequestResult :: "error option"
  DoResult :: "error + HttpResponse"
  sha1sum :: "string \<Rightarrow> string"
  sha256sum :: "string \<Rightarrow> string"
  decode :: "string \<Rightarrow> error + tar_item list"
  NewLocalWorkspaceResult :: "error option"
  SetEnvRefsForWorkspaceResult :: "error option"

definition RemoveAll :: "path \<Rightarrow> fs \<Rightarrow> fs" where
  "RemoveAll root t = (\<lambda>p. if take (length root) p = root then None else t p)"

text \<open>
  \<^verbatim>\<open>SetupWorkDirWithSource\<close> (lines 737 to 823) after the temporary directory is made: the result (the
  revision, or the error), the operations, and the file system.
\<close>

definition fetch_artifact ::
  "source_calls \<Rightarrow> SourceObject \<Rightarrow> path \<Rightarrow> fs \<Rightarrow> (error + string) \<times> op list \<times> fs" where
  "fetch_artifact sc source rootdir t =
     (case artifact_url source of
        None \<Rightarrow> (Inl ErrNoArtifactUrl, [], t)
      | Some artifactURL \<Rightarrow>
     (case artifact_revision source of
        None \<Rightarrow> (Inl ErrNoArtifactRevision, [], t)
      | Some revision \<Rightarrow>
     (case artifact_checksum source of
        None \<Rightarrow> (Inl ErrNoArtifactRevision, [], t)
      | Some checksum \<Rightarrow>
     (case NewRequestResult sc of
        Some err \<Rightarrow> (Inl (Wrap ''failed to create a request'' err), [], t)
      | None \<Rightarrow>
     (case DoResult sc of
        Inl err \<Rightarrow> (Inl (Wrap ''request for artifact failed'' err), [HttpGet artifactURL], t)
      | Inr resp \<Rightarrow>
          if StatusCode resp \<noteq> 200
          then (Inl (ErrDownloadStatus artifactURL (StatusText resp)), [HttpGet artifactURL], t)
          else
            (let hasher = (if length checksum = 40 then sha1sum sc else sha256sum sc)
             in case Body resp of
                  Inl err \<Rightarrow>
                    (Inl (Wrap ''failed to compute checksum from artifact response'' err),
                     [HttpGet artifactURL], t)
                | Inr buf \<Rightarrow>
                    (let checksum1 = hasher buf
                     in if checksum1 \<noteq> checksum
                        then (Inl (ErrChecksumMismatch checksum1 checksum),
                              [HttpGet artifactURL], t)
                        else
                          (case untar (decode sc buf) rootdir t of
                             (Some err, t1) \<Rightarrow>
                               (Inl (Wrap ''failed to extract archive tarball'' err),
                                [HttpGet artifactURL, Untar], t1)
                           | (None, t1) \<Rightarrow>
                               (case NewLocalWorkspaceResult sc of
                                  Some err \<Rightarrow>
                                    (Inl (Wrap ''failed to create local workspace'' err),
                                     [HttpGet artifactURL, Untar, NewLocalWorkspace], t1)
                                | None \<Rightarrow>
                                    (case SetEnvRefsForWorkspaceResult sc of
                                       Some err \<Rightarrow>
                                         (Inl err,
                                          [HttpGet artifactURL, Untar, NewLocalWorkspace,
                                           SetEnvRefsForWorkspaceOp], t1)
                                     | None \<Rightarrow>
                                         (Inr revision,
                                          [HttpGet artifactURL, Untar, NewLocalWorkspace,
                                           SetEnvRefsForWorkspaceOp], t1)))))))))))"

text \<open>
  \<^verbatim>\<open>SetupWorkDirWithSource\<close>: the temporary directory is made first, and the deferred
  function removes it when the rest returns an error.
\<close>

definition SetupWorkDirWithSource ::
  "source_calls \<Rightarrow> SourceObject \<Rightarrow> fs \<Rightarrow> (error + string) \<times> op list \<times> fs" where
  "SetupWorkDirWithSource sc source t =
     (case MkdirTempResult sc of
        Inl err \<Rightarrow> (Inl (Wrap ''unable to create tmp directory for workspace'' err), [MkdirTemp], t)
      | Inr rootdir \<Rightarrow>
          (case fetch_artifact sc source rootdir (t(rootdir \<mapsto> Dir)) of
             (Inl retErr, os, t1) \<Rightarrow>
               (Inl retErr, MkdirTemp # os @ [RemoveAllRootDir], RemoveAll rootdir t1)
           | (Inr revision, os, t1) \<Rightarrow> (Inr revision, MkdirTemp # os, t1)))"

subsection \<open>The collaborators of a reconciliation pass\<close>

text \<open>
  \<^verbatim>\<open>auto.UpResult\<close> and \<^verbatim>\<open>auto.OutputValue\<close> of the automation API, with the fields the
  controller reads. An output map is the list of its pairs in the order the \<^verbatim>\<open>range\<close>
  loop visits them; the value of an output is a handle that \<open>JsonMarshal\<close> turns to text.
\<close>

record OutputValue =
  Value :: string
  Secret :: bool

record UpResult =
  StdOut :: string
  StdErr :: string
  UpOutputs :: "(string \<times> OutputValue) list"

datatype get_result = GetOk Stack | GetNotFound | GetError error

text \<open>
  The answers of the collaborators, one field per call site of the pass.
  \<^item> \<open>ClientGetResult\<close>: the first \<^verbatim>\<open>r.client.Get\<close> of the Stack.
  \<^item> \<open>SetupGitAuthResult\<close>: \<^verbatim>\<open>sess.SetupGitAuth\<close>, its value the SSH private key of the
    authentication it returns (the one field \<^verbatim>\<open>Reconcile\<close> reads).
  \<^item> \<open>SetupWorkdirWithGitRepoResult\<close>: the clone, its value the revision at HEAD.
  \<^item> \<open>GetSourceResult\<close>, \<open>source\<close>, \<open>filesystem\<close>: the source object, the collaborators
    of \<open>SetupWorkDirWithSource\<close> and the file system it starts from.
  \<^item> \<open>EnsureStackResult\<close>, \<open>SetEnvsResult\<close>, \<open>SetSecretEnvsResult\<close>: the three set-up calls.
  \<^item> \<open>MarkFailedStatusUpdate\<close>: the status write of \<^verbatim>\<open>markStackFailed\<close> (each of its
    four call sites is followed by a return, so it runs at most once).
  \<^item> \<open>DestroyResult\<close>, \<open>RemoveStackResult\<close>, \<open>FinalizeUpdateResult\<close>,
    \<open>WaitForDeletionResult\<close>: the calls of \<^verbatim>\<open>finalize\<close>.
  \<^item> \<open>AddFinalizerGet\<close>, \<open>AddFinalizerUpdate\<close>: the calls of \<^verbatim>\<open>addFinalizer\<close>.
  \<^item> \<open>PermalinkGet\<close>, \<open>InfoResult\<close>, \<open>PermalinkStatusUpdate\<close>: the calls of
    \<^verbatim>\<open>addDefaultPermalink\<close>.
  \<^item> \<open>RefreshResult\<close> (the standard output of a refresh that succeeds), \<open>RefreshGet\<close>,
    \<open>RefreshStatusUpdate\<close>: the calls of the refresh step.
  \<^item> \<open>UpAnswer\<close>: how \<^verbatim>\<open>autoStack.Up\<close> ends, with an error or with a result (see \<open>Up\<close>
    below); \<open>IsConcurrentUpdateError\<close> and \<open>GetPermalink\<close> are the functions of the
    automation API (\<open>None\<close>: no permalink found).
  \<^item> \<open>JsonMarshal\<close>, \<open>JsonUnmarshal\<close>: \<^verbatim>\<open>json.Marshal\<close> of an output value and
    \<^verbatim>\<open>json.Unmarshal\<close> into \<^verbatim>\<open>apiextensionsv1.JSON\<close>.
  \<^item> \<open>SuccessGet\<close>, \<open>SuccessStatusUpdate\<close>: the calls of the last status write.
  \<^item> \<open>Now\<close>: \<^verbatim>\<open>metav1.Now()\<close>.
  A write through \<^verbatim>\<open>retry.RetryOnConflict\<close> is one operation with one answer.
\<close>

record calls =
  ClientGetResult :: get_result
  SetupGitAuthResult :: "error + string"
  SetupWorkdirWithGitRepoResult :: "error + string"
  GetSourceResult :: "error + SourceObject"
  source :: source_calls
  filesystem :: fs
  EnsureStackResult :: "error option"
  SetEnvsResult :: "error option"
  SetSecretEnvsResult :: "error option"
  MarkFailedStatusUpdate :: "error option"
  DestroyResult :: "error option"
  RemoveStackResult :: "error option"
  FinalizeUpdateResult :: "error option"
  WaitForDeletionResult :: "error option"
  AddFinalizerGet :: "error + Stack"
  AddFinalizerUpdate :: "error option"
  PermalinkGet :: "error + Stack"
  InfoResult :: "error + string"
  PermalinkStatusUpdate :: "error option"
  RefreshResult :: "error + string"
  RefreshGet :: "error + Stack"
  RefreshStatusUpdate :: "error option"
  UpAnswer :: "error + UpResult"
  IsConcurrentUpdateError :: "error \<Rightarrow> bool"
  GetPermalink :: "string \<Rightarrow> string option"
  JsonMarshal :: "string \<Rightarrow> error + string"
  JsonUnmarshal :: "string \<Rightarrow> error + string"
  SuccessGet :: "error + Stack"
  SuccessStatusUpdate :: "error option"
  Now :: nat

text \<open>
  \<^verbatim>\<open>reconcileStackSession\<close> together with the locals of \<^verbatim>\<open>Reconcile\<close> that outlive a
  step: \<open>sess_stack\<close> is \<^verbatim>\<open>sess.stack\<close>, the copy of the spec taken from the first read of
  the resource; \<open>inst\<close> is the object behind the pointer \<^verbatim>\<open>instance\<close>, which
  \<^verbatim>\<open>getLatestResource\<close> overwrites; \<open>ops\<close> is the list of operations performed so far.
\<close>

record session =
  sess_stack :: StackSpec
  inst :: Stack
  currentCommit :: string
  ops :: "op list"

subsection \<open>The steps of the automation engine\<close>

text \<open>
  \<^verbatim>\<open>autoStack.Up\<close> of the automation API, a library outside the repository, as the
  controller calls it at line 1208. The library fills its result only once the command
  has succeeded: next to an error it returns the zero \<^verbatim>\<open>UpResult\<close>, and what the command
  wrote to its standard error is inside the error, where \<^verbatim>\<open>IsConcurrentUpdateError\<close>
  reads it.
\<close>

definition zeroUpResult :: UpResult where
  "zeroUpResult = \<lparr>StdOut = [], StdErr = [], UpOutputs = []\<rparr>"

definition Up :: "calls \<Rightarrow> UpResult \<times> error option" where
  "Up c =
     (case UpAnswer c of
        Inl err \<Rightarrow> (zeroUpResult, Some err)
      | Inr result \<Rightarrow> (result, None))"

text \<open>
  \<^verbatim>\<open>validateGitRepo\<close> (lines 156 to 165), \<^verbatim>\<open>RefreshStack\<close> (lines 1179 to 1199) and
  \<^verbatim>\<open>UpdateStack\<close> (lines 1204 to 1227). A permalink that is not found is the empty string.
\<close>

definition validateGitRepo :: "InlineGitRepo option \<Rightarrow> error option" where
  "validateGitRepo repo =
     (case repo of
        None \<Rightarrow> Some ErrNoGitRepo
      | Some r \<Rightarrow> (if Commit r = [] \<and> Branch r = [] then Some ErrNoBranchOrCommit else None))"

definition RefreshStack :: "calls \<Rightarrow> bool \<Rightarrow> string \<times> error option" where
  "RefreshStack c expectNoChanges =
     (case RefreshResult c of
        Inl err \<Rightarrow> ([], Some (Wrap ''refreshing stack'' err))
      | Inr stdout \<Rightarrow>
          (case GetPermalink c stdout of
             None \<Rightarrow> ([], None)
           | Some p \<Rightarrow> (p, None)))"

definition UpdateStack ::
  "calls \<Rightarrow> StackUpdateStatus \<times> string \<times> UpResult option \<times> error option" where
  "UpdateStack c =
     (case Up c of
        (result, Some err) \<Rightarrow>
          (if IsConcurrentUpdateError c err then (StackUpdateConflict, [], None, Some err)
           else if Contains (StdErr result) ''error: [404] Not found''
           then (StackNotFound, [], None, Some err)
           else (StackUpdateFailed, [], None, Some err))
      | (result, None) \<Rightarrow>
          (case GetPermalink c (StdOut result) of
             None \<Rightarrow> (StackUpdateSucceeded, [], Some result, None)
           | Some p \<Rightarrow> (StackUpdateSucceeded, p, Some result, None)))"

text \<open>Writing a key of a Go map: the pair is replaced, or added.\<close>

fun map_store :: "string \<Rightarrow> string \<Rightarrow> (string \<times> string) list \<Rightarrow> (string \<times> string) list" where
  "map_store k v [] = [(k, v)]"
| "map_store k v ((k', v') # ps) = (if k = k' then (k, v) # ps else (k', v') # map_store k v ps)"

definition secret_sentinel :: string where
  "secret_sentinel = CHR 0x22 # ''[secret]'' @ [CHR 0x22]"

fun GetStackOutputs_loop ::
  "calls \<Rightarrow> (string \<times> OutputValue) list \<Rightarrow> (string \<times> string) list \<Rightarrow> error + StackOutputs" where
  "GetStackOutputs_loop c [] o' = Inr (Some o')"
| "GetStackOutputs_loop c ((k, v) # outs) o' =
     (if Secret v then GetStackOutputs_loop c outs (map_store k secret_sentinel o')
      else
        (case JsonMarshal c (Value v) of
           Inl err \<Rightarrow> Inl (Wrap ''marshaling stack output value interface'' err)
         | Inr valueBytes \<Rightarrow>
             (case JsonUnmarshal c valueBytes of
                Inl err \<Rightarrow> Inl (Wrap ''unmarshaling stack output value'' err)
              | Inr value \<Rightarrow> GetStackOutputs_loop c outs (map_store k value o'))))"

text \<open>
  \<^verbatim>\<open>GetStackOutputs\<close> (lines 1230 to 1250): the table \<^verbatim>\<open>o\<close> starts as
  \<^verbatim>\<open>make(shared.StackOutputs)\<close>, the empty table.
\<close>

definition GetStackOutputs :: "calls \<Rightarrow> (string \<times> OutputValue) list \<Rightarrow> error + StackOutputs" where
  "GetStackOutputs c outs = GetStackOutputs_loop c outs []"

text \<open>\<^verbatim>\<open>DestroyStack\<close> (lines 1252 to 1269): the error and the operations.\<close>

definition DestroyStack :: "calls \<Rightarrow> error option \<times> op list" where
  "DestroyStack c =
     (case DestroyResult c of
        Some err \<Rightarrow> (Some (Wrap ''destroying resources for stack'' err), [DestroyOp])
      | None \<Rightarrow>
          (case RemoveStackResult c of
             Some err \<Rightarrow> (Some (Wrap ''removing stack'' err), [DestroyOp, RemoveStackOp])
           | None \<Rightarrow> (None, [DestroyOp, RemoveStackOp])))"

subsection \<open>Status writes and the finalizer\<close>

text \<open>
  \<^verbatim>\<open>markStackFailed\<close> (lines 455 to 474): the error it returns, the object after the
  assignments, and the operations (the failure event and the status write of that object).
\<close>

definition markStackFailed ::
  "calls \<Rightarrow> Stack \<Rightarrow> error \<Rightarrow> string \<Rightarrow> string \<Rightarrow> error option \<times> Stack \<times> op list" where
  "markStackFailed c obj err commit permalink =
     (let lastUpdate = (case LastUpdate (Status obj) of
                          None \<Rightarrow> zeroStackUpdateState
                        | Some u \<Rightarrow> u);
          lastUpdate1 = lastUpdate\<lparr>LastAttemptedCommit := commit\<rparr>;
          lastUpdate2 = lastUpdate1\<lparr>State := FailedStackStateMessage\<rparr>;
          lastUpdate3 = lastUpdate2\<lparr>Permalink := permalink\<rparr>;
          lastUpdate4 = lastUpdate3\<lparr>LastResyncTime := Now c\<rparr>;
          obj1 = obj\<lparr>Status := (Status obj)\<lparr>LastUpdate := Some lastUpdate4\<rparr>\<rparr>;
          os = [EmitEvent StackUpdateFailureEvent, UpdateResourceStatus obj1]
      in case MarkFailedStatusUpdate c of
           Some err2 \<Rightarrow> (Some (WrapText err2 err), obj1, os)
         | None \<Rightarrow> (None, obj1, os))"

definition finalizeStack :: "calls \<Rightarrow> session \<Rightarrow> error option \<times> op list" where
  "finalizeStack c sess =
     (if DestroyOnFinalize (sess_stack sess) then DestroyStack c else (None, []))"

text \<open>
  \<^verbatim>\<open>finalize\<close> (lines 476 to 503), with \<^verbatim>\<open>finalizeStack\<close> (lines 505 to 514) above: the
  error it returns, and the session after it. The wait for the deletion is one operation
  with one answer.
\<close>

definition finalize :: "calls \<Rightarrow> session \<Rightarrow> error option \<times> session" where
  "finalize c sess =
     (case finalizeStack c sess of
        (Some err, os) \<Rightarrow> (Some err, sess\<lparr>ops := ops sess @ os\<rparr>)
      | (None, os) \<Rightarrow>
          (let stack = RemoveFinalizer (inst sess) pulumiFinalizer;
               sess1 = sess\<lparr>inst := stack, ops := ops sess @ os @ [UpdateResource stack]\<rparr>
           in case FinalizeUpdateResult c of
                Some err \<Rightarrow> (Some err, sess1)
              | None \<Rightarrow>
                  (let sess2 = sess1\<lparr>ops := ops sess1 @ [WaitForDeletion]\<rparr>
                   in case WaitForDeletionResult c of
                        Some err \<Rightarrow> (Some err, sess2)
                      | None \<Rightarrow> (None, sess2))))"

text \<open>
  \<^verbatim>\<open>addFinalizer\<close> (lines 517 to 532) and \<^verbatim>\<open>addDefaultPermalink\<close> (lines 1365 to 1390).
\<close>

definition addFinalizer :: "calls \<Rightarrow> session \<Rightarrow> error option \<times> session" where
  "addFinalizer c sess =
     (case AddFinalizerGet c of
        Inl err \<Rightarrow> (Some err, sess\<lparr>ops := ops sess @ [GetLatestResource]\<rparr>)
      | Inr latest \<Rightarrow>
          (let stack = AddFinalizer latest pulumiFinalizer;
               sess1 = sess\<lparr>inst := stack,
                           ops := ops sess @ [GetLatestResource, UpdateResource stack]\<rparr>
           in case AddFinalizerUpdate c of
                Some err \<Rightarrow> (Some err, sess1)
              | None \<Rightarrow> (None, sess1)))"

definition addDefaultPermalink :: "calls \<Rightarrow> session \<Rightarrow> error option \<times> session" where
  "addDefaultPermalink c sess =
     (case PermalinkGet c of
        Inl err \<Rightarrow> (Some err, sess\<lparr>ops := ops sess @ [GetLatestResource]\<rparr>)
      | Inr latest \<Rightarrow>
          (case InfoResult c of
             Inl err \<Rightarrow>
               (Some err, sess\<lparr>inst := latest, ops := ops sess @ [GetLatestResource, StackInfo]\<rparr>)
           | Inr url \<Rightarrow>
               (let lastUpdate = (case LastUpdate (Status latest) of
                                    None \<Rightarrow> zeroStackUpdateState
                                  | Some u \<Rightarrow> u);
                    stack = latest\<lparr>Status :=
                              (Status latest)\<lparr>LastUpdate := Some (lastUpdate\<lparr>Permalink := url\<rparr>)\<rparr>\<rparr>;
                    sess1 = sess\<lparr>inst := stack,
                                ops := ops sess @
                                  [GetLatestResource, StackInfo, UpdateResourceStatus stack]\<rparr>
                in case PermalinkStatusUpdate c of
                     Some err \<Rightarrow> (Some err, sess1)
                   | None \<Rightarrow> (None, sess1))))"

subsection \<open>The reconciliation pass\<close>

text \<open>
  \<^verbatim>\<open>Reconcile\<close> in the order of the source, cut into its steps. \<open>acquire\<close> is the
  read of the resource and step 1 up to the workspace (lines 173 to 262): it returns, or
  goes on with the session.
\<close>

definition acquire :: "calls \<Rightarrow> session step" where
  "acquire c =
     (case ClientGetResult c of
        GetNotFound \<Rightarrow> Return (emptyResult, None) [ClientGetStack]
      | GetError err \<Rightarrow> Return (emptyResult, Some err) [ClientGetStack]
      | GetOk obj \<Rightarrow>
          (let stack = Spec obj;
               isStackMarkedToBeDeleted = (DeletionTimestamp obj \<noteq> None)
           in case (GitRepo stack, SourceRef stack) of
                (Some repo, None) \<Rightarrow>
                  (case (if \<not> isStackMarkedToBeDeleted then validateGitRepo (GitRepo stack)
                         else None) of
                     Some err \<Rightarrow>
                       Return (emptyResult, Some err)
                         [ClientGetStack, EmitEvent StackConfigInvalidEvent]
                   | None \<Rightarrow>
                       (case SetupGitAuthResult c of
                          Inl err \<Rightarrow>
                            Return (emptyResult, Some err)
                              [ClientGetStack, SetupGitAuthOp, EmitEvent StackGitAuthFailureEvent]
                        | Inr sshPrivateKey \<Rightarrow>
                            (let os = [ClientGetStack, SetupGitAuthOp] @
                                      (if sshPrivateKey \<noteq> [] then [AddSSHKeysToKnownHosts] else []) @
                                      [SetupWorkdirWithGitRepoOp]
                             in case SetupWorkdirWithGitRepoResult c of
                                  Inl err \<Rightarrow>
                                    Return (emptyResult, Some err)
                                      (os @ [EmitEvent StackInitializationFailureEvent])
                                | Inr commit \<Rightarrow>
                                    Continue \<lparr>sess_stack = stack, inst = obj,
                                              currentCommit = commit, ops = os\<rparr>)))
              | (None, Some src) \<Rightarrow>
                  (case GetSourceResult c of
                     Inl err \<Rightarrow>
                       Return (emptyResult, Some (Wrap ''could not resolve sourceRef'' err))
                         [ClientGetStack, ClientGetSource]
                   | Inr sourceObject \<Rightarrow>
                       (case SetupWorkDirWithSource (source c) sourceObject (filesystem c) of
                          (Inl err, os, t) \<Rightarrow>
                            Return (emptyResult, Some err) ([ClientGetStack, ClientGetSource] @ os)
                        | (Inr revision, os, t) \<Rightarrow>
                            Continue \<lparr>sess_stack = stack, inst = obj, currentCommit = revision,
                                      ops = [ClientGetStack, ClientGetSource] @ os\<rparr>))
              | (Some repo, Some src) \<Rightarrow> Return (emptyResult, Some ErrExactlyOneSource) [ClientGetStack]
              | (None, None) \<Rightarrow> Return (emptyResult, Some ErrExactlyOneSource) [ClientGetStack]))"

text \<open>Step 1 continued and step 2 (lines 267 to 286): the stack and the environment.\<close>

definition prepare :: "calls \<Rightarrow> session \<Rightarrow> session step" where
  "prepare c sess =
     (case EnsureStackResult c of
        Some err \<Rightarrow> Return (emptyResult, Some err) (ops sess @ [EnsureStackOp])
      | None \<Rightarrow>
          (case SetEnvsResult c of
             Some err \<Rightarrow>
               (case markStackFailed c (inst sess)
                       (Wrap ''could not find ConfigMap for Envs'' err) (currentCommit sess) [] of
                  (Some err2, obj, os) \<Rightarrow>
                    Return (emptyResult, Some err2) (ops sess @ [EnsureStackOp, SetEnvsOp] @ os)
                | (None, obj, os) \<Rightarrow>
                    Return (emptyResult, Some err) (ops sess @ [EnsureStackOp, SetEnvsOp] @ os))
           | None \<Rightarrow>
               (case SetSecretEnvsResult c of
                  Some err \<Rightarrow>
                    (case markStackFailed c (inst sess)
                            (Wrap ''could not find Secret for SecretEnvs'' err)
                            (currentCommit sess) [] of
                       (Some err2, obj, os) \<Rightarrow>
                         Return (emptyResult, Some err2)
                           (ops sess @ [EnsureStackOp, SetEnvsOp, SetSecretEnvsOp] @ os)
                     | (None, obj, os) \<Rightarrow>
                         Return (emptyResult, Some err)
                           (ops sess @ [EnsureStackOp, SetEnvsOp, SetSecretEnvsOp] @ os))
                | None \<Rightarrow>
                    Continue (sess\<lparr>ops := ops sess @ [EnsureStackOp, SetEnvsOp, SetSecretEnvsOp]\<rparr>))))"

text \<open>The finalizer (lines 288 to 314).\<close>

definition finalizer_step :: "calls \<Rightarrow> session \<Rightarrow> session step" where
  "finalizer_step c sess =
     (let isStackMarkedToBeDeleted = (DeletionTimestamp (inst sess) \<noteq> None)
      in if isStackMarkedToBeDeleted
         then (if contains (Finalizers (inst sess)) pulumiFinalizer
               then (case finalize c sess of
                       (err, sess1) \<Rightarrow> Return (emptyResult, err) (ops sess1))
               else Continue sess)
         else (if \<not> contains (Finalizers (inst sess)) pulumiFinalizer
               then (case addFinalizer c sess of
                       (Some err, sess1) \<Rightarrow> Return (emptyResult, Some err) (ops sess1)
                     | (None, sess1) \<Rightarrow>
                         (case addDefaultPermalink c (sess1\<lparr>ops := ops sess1 @ [Sleep2s]\<rparr>) of
                            (Some err, sess2) \<Rightarrow> Return (emptyResult, Some err) (ops sess2)
                          | (None, sess2) \<Rightarrow> Continue sess2))
               else Continue sess))"

text \<open>
  The resync decision (lines 318 to 359). The frequency is a signed 64-bit number of
  seconds; \<^verbatim>\<open>time.Duration(resyncFreqSeconds) * time.Second\<close> is a 64-bit product. The
  step returns (the poll of an unchanged commit), or goes on with \<^verbatim>\<open>successResult\<close>.
\<close>

definition resyncFreqSeconds :: "StackSpec \<Rightarrow> InlineGitRepo \<Rightarrow> 64 word" where
  "resyncFreqSeconds stack repo =
     (let trackBranch = (length (Branch repo) > 0);
          freq = ResyncFrequencySeconds stack;
          freq1 = (if ResyncFrequencySeconds stack \<noteq> 0 \<and> sint (ResyncFrequencySeconds stack) < 60
                   then 60 else freq)
      in if trackBranch \<or> ContinueResyncOnCommitMatch repo
         then (if freq1 = 0 then 60 else freq1)
         else freq1)"

definition resync_step :: "session \<Rightarrow> (session \<times> Result) step" where
  "resync_step sess =
     (case GitRepo (sess_stack sess) of
        None \<Rightarrow> Continue (sess, emptyResult)
      | Some repo \<Rightarrow>
          (let trackBranch = (length (Branch repo) > 0);
               freq = resyncFreqSeconds (sess_stack sess) repo;
               successResult =
                 (if trackBranch \<or> ContinueResyncOnCommitMatch repo
                  then \<lparr>Requeue = False, RequeueAfter = freq * Second\<rparr>
                  else emptyResult)
           in case (if trackBranch then LastUpdate (Status (inst sess)) else None) of
                Some lastUpdate \<Rightarrow>
                  (if LastSuccessfulCommit lastUpdate = currentCommit sess \<and>
                      \<not> ContinueResyncOnCommitMatch repo
                   then Return (\<lparr>Requeue = False, RequeueAfter = freq * Second\<rparr>, None) (ops sess)
                   else if LastSuccessfulCommit lastUpdate \<noteq> currentCommit sess
                   then Continue (sess\<lparr>ops := ops sess @ [EmitEvent StackUpdateDetectedEvent]\<rparr>,
                                  successResult)
                   else Continue (sess, successResult))
              | None \<Rightarrow> Continue (sess, successResult)))"

text \<open>Step 3, the optional refresh (lines 361 to 386).\<close>

definition refresh_step :: "calls \<Rightarrow> session \<times> Result \<Rightarrow> (session \<times> Result) step" where
  "refresh_step c sr =
     (case sr of (sess, successResult) \<Rightarrow>
        if Refresh (sess_stack sess)
        then
          (let os = ops sess @ [RefreshOp (ExpectNoRefreshChanges (sess_stack sess))]
           in case RefreshStack c (ExpectNoRefreshChanges (sess_stack sess)) of
                (permalink, Some err) \<Rightarrow>
                  (case markStackFailed c (inst sess) (Wrap ''refreshing stack'' err)
                          (currentCommit sess) permalink of
                     (Some err2, obj, os1) \<Rightarrow> Return (emptyResult, Some err2) (os @ os1)
                   | (None, obj, os1) \<Rightarrow> Return (emptyResult, Some err) (os @ os1))
              | (permalink, None) \<Rightarrow>
                  (case RefreshGet c of
                     Inl err \<Rightarrow> Return (emptyResult, Some err) (os @ [GetLatestResource])
                   | Inr latest \<Rightarrow>
                       (let lastUpdate = (case LastUpdate (Status latest) of
                                            None \<Rightarrow> zeroStackUpdateState
                                          | Some u \<Rightarrow> u);
                            obj = latest\<lparr>Status := (Status latest)
                                    \<lparr>LastUpdate := Some (lastUpdate\<lparr>Permalink := permalink\<rparr>)\<rparr>\<rparr>;
                            os1 = os @ [GetLatestResource, UpdateResourceStatus obj]
                        in case RefreshStatusUpdate c of
                             Some err \<Rightarrow> Return (emptyResult, Some err) os1
                           | None \<Rightarrow> Continue (sess\<lparr>inst := obj, ops := os1\<rparr>, successResult))))
        else Continue (sess, successResult))"

text \<open>
  Step 5 and the last status write (lines 416 to 448), after an update that succeeded
  with the permalink and the result given: the outcome and the operations added.
\<close>

definition capture_outputs ::
  "calls \<Rightarrow> session \<Rightarrow> Result \<Rightarrow> string \<Rightarrow> UpResult option \<Rightarrow> outcome \<times> op list" where
  "capture_outputs c sess successResult permalink result =
     (case result of
        None \<Rightarrow> ((emptyResult, Some PanicNilDereference), [])
      | Some res \<Rightarrow>
          (case GetStackOutputs c (UpOutputs res) of
             Inl err \<Rightarrow> ((emptyResult, Some err), [EmitEvent StackOutputRetrievalFailureEvent])
           | Inr None \<Rightarrow> ((emptyResult, None), [])
           | Inr (Some outs) \<Rightarrow>
               (case SuccessGet c of
                  Inl err \<Rightarrow> ((emptyResult, Some err), [GetLatestResource])
                | Inr latest \<Rightarrow>
                    (let obj = latest\<lparr>Status :=
                                 \<lparr>Outputs = Some outs,
                                  LastUpdate = Some
                                    \<lparr>State = SucceededStackStateMessage,
                                     LastAttemptedCommit = currentCommit sess,
                                     LastSuccessfulCommit = currentCommit sess,
                                     Permalink = permalink,
                                     LastResyncTime = Now c\<rparr>\<rparr>\<rparr>
                     in case SuccessStatusUpdate c of
                          Some err \<Rightarrow>
                            ((emptyResult, Some err),
                             [GetLatestResource, UpdateResourceStatus obj])
                        | None \<Rightarrow>
                            ((successResult, None),
                             [GetLatestResource, UpdateResourceStatus obj,
                              EmitEvent StackUpdateSuccessfulEvent])))))"

text \<open>
  Step 4 (lines 388 to 414) and what follows it: the outcome of the pass and the
  operations from the update on.
\<close>

definition update_step :: "calls \<Rightarrow> session \<times> Result \<Rightarrow> outcome \<times> op list" where
  "update_step c sr =
     (case sr of (sess, successResult) \<Rightarrow>
        (case UpdateStack c of (status, permalink, result, err) \<Rightarrow>
           (case status of
              StackUpdateConflict \<Rightarrow>
                (if RetryOnUpdateConflict (sess_stack sess)
                 then ((\<lparr>Requeue = False, RequeueAfter = Second * 5\<rparr>, None),
                       [UpOp, EmitEvent StackUpdateConflictDetectedEvent])
                 else ((emptyResult, None),
                       [UpOp, EmitEvent StackUpdateConflictDetectedEvent]))
            | StackNotFound \<Rightarrow>
                ((\<lparr>Requeue = False, RequeueAfter = Second * 5\<rparr>, None),
                 [UpOp, EmitEvent StackNotFoundEvent])
            | _ \<Rightarrow>
                (case err of
                   Some e \<Rightarrow>
                     (case markStackFailed c (inst sess) e (currentCommit sess) permalink of
                        (Some err2, obj, os) \<Rightarrow> ((emptyResult, Some err2), UpOp # os)
                      | (None, obj, os) \<Rightarrow> ((emptyResult, Some e), UpOp # os))
                 | None \<Rightarrow>
                     (case capture_outputs c sess successResult permalink result of
                        (out, os) \<Rightarrow> (out, UpOp # os))))))"

text \<open>
  The pass up to a step: \<open>to_resync\<close> is the pass up to the resync decision,
  \<open>to_refresh\<close> up to the refresh step and \<open>to_update\<close> up to the update. Each is
  \<open>Return\<close> when the pass has returned before, and \<open>Continue\<close> with the session that
  reaches the step.
\<close>

fun then_step :: "'a step \<Rightarrow> ('a \<Rightarrow> 'b step) \<Rightarrow> 'b step" where
  "then_step (Return out os) f = Return out os"
| "then_step (Continue x) f = f x"

definition to_resync :: "calls \<Rightarrow> session step" where
  "to_resync c = then_step (then_step (acquire c) (prepare c)) (finalizer_step c)"

definition to_refresh :: "calls \<Rightarrow> (session \<times> Result) step" where
  "to_refresh c = then_step (to_resync c) resync_step"

definition to_update :: "calls \<Rightarrow> (session \<times> Result) step" where
  "to_update c = then_step (to_refresh c) (refresh_step c)"

text \<open>
  \<^verbatim>\<open>Reconcile\<close>: the result, the error and the operations of the whole pass. The
  deferred \<^verbatim>\<open>CleanupPulumiDir\<close> runs at every return after the workspace is acquired.
\<close>

definition Reconcile :: "calls \<Rightarrow> outcome \<times> op list" where
  "Reconcile c =
     (case acquire c of
        Return out os \<Rightarrow> (out, os)
      | Continue sess0 \<Rightarrow>
          (case to_update c of
             Return out os \<Rightarrow> (out, os @ [CleanupPulumiDir])
           | Continue (sess, successResult) \<Rightarrow>
               (case update_step c (sess, successResult) of
                  (out, os) \<Rightarrow> (out, ops sess @ os @ [CleanupPulumiDir]))))"

subsection \<open>Classes of operations\<close>

text \<open>
  The operations that run the automation engine on the infrastructure (refresh, update,
  destroy and the removal of the stack), and the writes to the resource store.
\<close>

fun automation_operation :: "op \<Rightarrow> bool" where
  "automation_operation (RefreshOp b) = True"
| "automation_operation UpOp = True"
| "automation_operation DestroyOp = True"
| "automation_operation RemoveStackOp = True"
| "automation_operation x = False"

fun store_write :: "op \<Rightarrow> bool" where
  "store_write (UpdateResource obj) = True"
| "store_write (UpdateResourceStatus obj) = True"
| "store_write x = False"

text \<open>
  The resync delay in the words of the specification, in seconds: the configured value
  clamped to a minimum of 60, and 60 when it is unset (zero).
\<close>

definition spec_resync_delay :: "int \<Rightarrow> int" where
  "spec_resync_delay configured = (if configured = 0 then 60 else max 60 configured)"

text \<open>
  Paths at or below a root; a file system in which the root and the directories above it
  exist; and the paths that are below the root or lead to it.
\<close>

definition under :: "path \<Rightarrow> path \<Rightarrow> bool" where
  "under root p = (take (length root) p = root)"

definition dirs_exist :: "path \<Rightarrow> fs \<Rightarrow> bool" where
  "dirs_exist root t = list_all (\<lambda>n. t (take n root) = Some Dir) [0..<Suc (length root)]"

definition near :: "path \<Rightarrow> path \<Rightarrow> bool" where
  "near root p = (under root p \<or> take (length p) root = p)"

subsection \<open>Concrete passes\<close>

text \<open>
  A Stack that tracks the branch \<^verbatim>\<open>main\<close> of a git repository, carries the finalizer, and
  whose last update succeeded at commit \<^verbatim>\<open>c0ffee\<close>; collaborators that all succeed, with
  the repository still at \<^verbatim>\<open>c0ffee\<close>; and the session with which that pass reaches the
  resync decision. The other passes below differ from this one in the fields named.
\<close>

definition example_repo :: InlineGitRepo where
  "example_repo =
     \<lparr>ProjectRepo = ''https://example.com/infra.git'', Commit = [], Branch = ''main'',
      ContinueResyncOnCommitMatch = False\<rparr>"

definition example_spec :: StackSpec where
  "example_spec =
     \<lparr>Envs = [], SecretEnvs = [], GitRepo = Some example_repo, SourceRef = None, RepoDir = [],
      Refresh = False, ExpectNoRefreshChanges = False, DestroyOnFinalize = True,
      RetryOnUpdateConflict = True, UseLocalStackOnly = False, ResyncFrequencySeconds = 0\<rparr>"

definition example_update :: StackUpdateState where
  "example_update =
     \<lparr>State = SucceededStackStateMessage, LastAttemptedCommit = ''c0ffee'',
      LastSuccessfulCommit = ''c0ffee'', Permalink = ''https://app/1'', LastResyncTime = 7\<rparr>"

definition example_stack :: Stack where
  "example_stack =
     \<lparr>DeletionTimestamp = None, Finalizers = [pulumiFinalizer], Spec = example_spec,
      Status = \<lparr>Outputs = None, LastUpdate = Some example_update\<rparr>\<rparr>"

definition example_source_calls :: source_calls where
  "example_source_calls =
     \<lparr>MkdirTempResult = Inr [''tmp'', ''pulumi_source1''],
      NewRequestResult = None,
      DoResult = Inr \<lparr>StatusCode = 200, StatusText = ''200 OK'', Body = Inr ''archive''\<rparr>,
      sha1sum = (\<lambda>b. replicate 40 CHR ''a''),
      sha256sum = (\<lambda>b. replicate 64 CHR ''b''),
      decode = (\<lambda>b. Inr []),
      NewLocalWorkspaceResult = None,
      SetEnvRefsForWorkspaceResult = None\<rparr>"

definition example_fs :: fs where
  "example_fs = (\<lambda>p. if p = [] \<or> p = [''tmp''] then Some Dir else None)"

definition example_calls :: calls where
  "example_calls =
     \<lparr>ClientGetResult = GetOk example_stack,
      SetupGitAuthResult = Inr [],
      SetupWorkdirWithGitRepoResult = Inr ''c0ffee'',
      GetSourceResult = Inr \<lparr>artifact_url = Some ''http://source/a.tar.gz'',
                              artifact_revision = Some ''main/c0ffee'',
                              artifact_checksum = Some (replicate 64 CHR ''b'')\<rparr>,
      source = example_source_calls,
      filesystem = example_fs,
      EnsureStackResult = None,
      SetEnvsResult = None,
      SetSecretEnvsResult = None,
      MarkFailedStatusUpdate = None,
      DestroyResult = None,
      RemoveStackResult = None,
      FinalizeUpdateResult = None,
      WaitForDeletionResult = None,
      AddFinalizerGet = Inr example_stack,
      AddFinalizerUpdate = None,
      PermalinkGet = Inr example_stack,
      InfoResult = Inr ''https://app/stack'',
      PermalinkStatusUpdate = None,
      RefreshResult = Inr [],
      RefreshGet = Inr example_stack,
      RefreshStatusUpdate = None,
      UpAnswer = Inr \<lparr>StdOut = ''View Live: https://app/2'', StdErr = [], UpOutputs = []\<rparr>,
      IsConcurrentUpdateError = (\<lambda>e. e = ExternalError ''[409] Conflict''),
      GetPermalink = (\<lambda>out. if out = [] then None else Some ''https://app/2''),
      JsonMarshal = (\<lambda>v. Inr v),
      JsonUnmarshal = (\<lambda>b. Inr b),
      SuccessGet = Inr example_stack,
      SuccessStatusUpdate = None,
      Now = 42\<rparr>"

definition example_session :: session where
  "example_session =
     \<lparr>sess_stack = example_spec, inst = example_stack, currentCommit = ''c0ffee'',
      ops = [ClientGetStack, SetupGitAuthOp, SetupWorkdirWithGitRepoOp, EnsureStackOp,
             SetEnvsOp, SetSecretEnvsOp]\<rparr>"

definition one_minute :: Result where
  "one_minute = \<lparr>Requeue = False, RequeueAfter = 60000000000\<rparr>"

text \<open>A resync frequency of 9223372037 seconds, more than a duration of 64 bits holds.\<close>

definition overflow_stack :: Stack where
  "overflow_stack = example_stack\<lparr>Spec := example_spec\<lparr>ResyncFrequencySeconds := 9223372037\<rparr>\<rparr>"

definition overflow_calls :: calls where
  "overflow_calls = example_calls\<lparr>ClientGetResult := GetOk overflow_stack\<rparr>"

definition overflow_session :: session where
  "overflow_session =
     example_session\<lparr>sess_stack := Spec overflow_stack, inst := overflow_stack\<rparr>"

text \<open>The repository has moved on to commit \<^verbatim>\<open>beef\<close>; the update succeeds with no outputs.\<close>

definition changed_calls :: calls where
  "changed_calls = example_calls\<lparr>SetupWorkdirWithGitRepoResult := Inr ''beef''\<rparr>"

definition changed_session :: session where
  "changed_session =
     example_session\<lparr>currentCommit := ''beef'',
                      ops := ops example_session @ [EmitEvent StackUpdateDetectedEvent]\<rparr>"

text \<open>
  A Stack whose deletion is requested and which no longer carries the finalizer of the
  controller (another finalizer keeps the object in the store).
\<close>

definition deleting_stack :: Stack where
  "deleting_stack =
     example_stack\<lparr>DeletionTimestamp := Some 5, Finalizers := [''foregroundDeletion'']\<rparr>"

definition deleting_calls :: calls where
  "deleting_calls =
     changed_calls\<lparr>ClientGetResult := GetOk deleting_stack, SuccessGet := Inr deleting_stack\<rparr>"

text \<open>A Stack whose deletion is requested, with the finalizer; and a destroy that fails.\<close>

definition finalizing_stack :: Stack where
  "finalizing_stack = example_stack\<lparr>DeletionTimestamp := Some 5\<rparr>"

definition finalizing_calls :: calls where
  "finalizing_calls = example_calls\<lparr>ClientGetResult := GetOk finalizing_stack\<rparr>"

definition finalizing_session :: session where
  "finalizing_session = example_session\<lparr>inst := finalizing_stack\<rparr>"

definition destroy_failing_calls :: calls where
  "destroy_failing_calls =
     finalizing_calls\<lparr>DestroyResult := Some (ExternalError ''destroy failed'')\<rparr>"

text \<open>
  Updates that end in an error: the conflict of a concurrent update, the answer 404 of the
  backend (the error holds the standard error of the command), and another failure.
\<close>

definition conflict_calls :: calls where
  "conflict_calls = changed_calls\<lparr>UpAnswer := Inl (ExternalError ''[409] Conflict'')\<rparr>"

definition no_retry_stack :: Stack where
  "no_retry_stack = example_stack\<lparr>Spec := example_spec\<lparr>RetryOnUpdateConflict := False\<rparr>\<rparr>"

definition no_retry_calls :: calls where
  "no_retry_calls = conflict_calls\<lparr>ClientGetResult := GetOk no_retry_stack\<rparr>"

definition no_retry_session :: session where
  "no_retry_session =
     changed_session\<lparr>sess_stack := Spec no_retry_stack, inst := no_retry_stack\<rparr>"

definition not_found_error :: error where
  "not_found_error =
     ExternalError ''failed to run update: exit status 255: error: [404] Not found''"

definition not_found_calls :: calls where
  "not_found_calls = changed_calls\<lparr>UpAnswer := Inl not_found_error\<rparr>"

definition failed_calls :: calls where
  "failed_calls =
     changed_calls\<lparr>UpAnswer :=
       Inl (ExternalError ''failed to run update: exit status 255: error: update failed'')\<rparr>"

text \<open>
  An artifact source whose declared checksum has 40 characters and differs from the
  digest of the download.
\<close>

definition tampered_source :: SourceObject where
  "tampered_source =
     \<lparr>artifact_url = Some ''http://source/a.tar.gz'',
      artifact_revision = Some ''main/c0ffee'',
      artifact_checksum = Some (replicate 40 CHR ''c'')\<rparr>"

definition artifact_stack :: Stack where
  "artifact_stack =
     example_stack\<lparr>Spec := example_spec
       \<lparr>GitRepo := None,
        SourceRef := Some \<lparr>APIVersion = ''source.toolkit.fluxcd.io/v1beta2'',
                           Kind = ''GitRepository'', SourceName = ''infra''\<rparr>\<rparr>\<rparr>"

definition tampered_calls :: calls where
  "tampered_calls =
     example_calls\<lparr>ClientGetResult := GetOk artifact_stack,
                    GetSourceResult := Inr tampered_source\<rparr>"

text \<open>An environment, a file system and a secret store, and references into them.\<close>

definition example_world :: world where
  "example_world =
     \<lparr>Getenv = (\<lambda>name. if name = ''HOME'' then ''/root'' else []),
      ReadFile = (\<lambda>p. if p = ''/etc/token'' then Inr ''t0ken''
                       else Inl (ExternalError ''no such file or directory'')),
      GetSecret = (\<lambda>namespace name.
                     if namespace = ''default'' \<and> name = ''creds''
                     then Inr [''password'' \<mapsto> ''hunter2'']
                     else Inl (ExternalError ''secret not found''))\<rparr>"

definition env_ref :: ResourceRef where
  "env_ref = \<lparr>SelectorType = ResourceSelectorEnv, Env = Some ''TOKEN'', LiteralRef = None,
              FileSystem = None, SecretRef = None\<rparr>"

definition fs_ref :: ResourceRef where
  "fs_ref = \<lparr>SelectorType = ResourceSelectorFS, Env = None, LiteralRef = None,
             FileSystem = Some ''/etc/missing'', SecretRef = None\<rparr>"

definition secret_ref :: ResourceRef where
  "secret_ref = \<lparr>SelectorType = ResourceSelectorSecret, Env = None, LiteralRef = None,
                 FileSystem = None,
                 SecretRef = Some \<lparr>Namespace = [], Name = ''absent'', Key = ''password''\<rparr>\<rparr>"

definition key_ref :: ResourceRef where
  "key_ref = \<lparr>SelectorType = ResourceSelectorSecret, Env = None, LiteralRef = None,
              FileSystem = None,
              SecretRef = Some \<lparr>Namespace = [], Name = ''creds'', Key = ''token''\<rparr>\<rparr>"

definition literal_ref :: ResourceRef where
  "literal_ref = \<lparr>SelectorType = ResourceSelectorLiteral, Env = None, LiteralRef = Some ''v1'',
                  FileSystem = None, SecretRef = None\<rparr>"







text \<open>An archive with one directory entry, named \<^verbatim>\<open>..\<close>.\<close>

definition extraction_fs :: fs where
  "extraction_fs = example_fs([''tmp'', ''pulumi_source1''] \<mapsto> Dir)"

definition traversal_entry :: TarHeader where
  "traversal_entry = \<lparr>EntryName = ''..'', Mode = ModeDir, Size = 0, Payload = []\<rparr>"

section \<open>Properties\<close>

lemmas example_defs = example_repo_def example_spec_def example_update_def example_stack_def
  example_source_calls_def example_fs_def example_calls_def example_session_def one_minute_def
  changed_calls_def changed_session_def

lemmas pass_defs = to_resync_def to_refresh_def to_update_def acquire_def prepare_def
  finalizer_step_def resync_step_def refresh_step_def update_step_def capture_outputs_def
  Reconcile_def validateGitRepo_def pulumiFinalizer_def emptyResult_def
  finalize_def finalizeStack_def DestroyStack_def addFinalizer_def addDefaultPermalink_def
  markStackFailed_def UpdateStack_def Up_def zeroUpResult_def RefreshStack_def
  GetStackOutputs_def
  resyncFreqSeconds_def Second_def AddFinalizer_def RemoveFinalizer_def zeroStackUpdateState_def
  Let_def

subsection \<open>The steps of a pass\<close>

lemma then_step_Continue:
  "then_step x f = Continue y \<Longrightarrow> \<exists>z. x = Continue z \<and> f z = Continue y"
  by (cases x) auto

lemma fetch_artifact_ops:
  "fetch_artifact sc src root t = (r, os, t1) \<Longrightarrow>
     \<forall>x \<in> set os. \<not> automation_operation x \<and> \<not> store_write x"
  unfolding fetch_artifact_def
  by (auto simp: Let_def split: option.splits sum.splits if_splits prod.splits)

lemma SetupWorkDirWithSource_ops:
  "SetupWorkDirWithSource sc src t = (r, os, t1) \<Longrightarrow>
     \<forall>x \<in> set os. \<not> automation_operation x \<and> \<not> store_write x"
  unfolding SetupWorkDirWithSource_def
  by (auto split: sum.splits prod.splits dest!: fetch_artifact_ops)

lemma acquire_Continue:
  assumes "acquire c = Continue sess"
  shows "ClientGetResult c = GetOk (inst sess)" and "sess_stack sess = Spec (inst sess)"
    and "\<forall>x \<in> set (ops sess). \<not> automation_operation x \<and> \<not> store_write x"
  using assms unfolding acquire_def
  by (auto simp: Let_def split: get_result.splits option.splits sum.splits if_splits prod.splits
      dest!: SetupWorkDirWithSource_ops)

lemma prepare_Continue:
  assumes "prepare c sess = Continue sess1"
  shows "sess1 = sess\<lparr>ops := ops sess @ [EnsureStackOp, SetEnvsOp, SetSecretEnvsOp]\<rparr>"
  using assms unfolding prepare_def
  by (auto split: option.splits prod.splits)

lemma addFinalizer_ok:
  "addFinalizer c sess = (None, sess1) \<Longrightarrow>
     sess_stack sess1 = sess_stack sess \<and> currentCommit sess1 = currentCommit sess \<and>
     (\<exists>obj. ops sess1 = ops sess @ [GetLatestResource, UpdateResource obj])"
  unfolding addFinalizer_def
  by (auto simp: Let_def split: sum.splits option.splits)

lemma addDefaultPermalink_ok:
  "addDefaultPermalink c sess = (None, sess1) \<Longrightarrow>
     sess_stack sess1 = sess_stack sess \<and> currentCommit sess1 = currentCommit sess \<and>
     (\<exists>obj. ops sess1 = ops sess @ [GetLatestResource, StackInfo, UpdateResourceStatus obj]) \<and>
     LastUpdate (Status (inst sess1)) \<noteq> None"
  unfolding addDefaultPermalink_def
  by (auto simp: Let_def split: sum.splits option.splits)

lemma finalizer_step_Continue:
  assumes "finalizer_step c sess = Continue sess1"
  shows "sess_stack sess1 = sess_stack sess" and "currentCommit sess1 = currentCommit sess"
    and "\<exists>os. ops sess1 = ops sess @ os \<and> (\<forall>x \<in> set os. \<not> automation_operation x)"
  using assms unfolding finalizer_step_def
  by (auto simp: Let_def split: if_splits prod.splits option.splits
      dest!: addFinalizer_ok addDefaultPermalink_ok)

lemma to_resync_Continue:
  assumes "to_resync c = Continue sess"
  shows "\<forall>x \<in> set (ops sess). \<not> automation_operation x"
    and "\<exists>sess0. acquire c = Continue sess0 \<and> sess_stack sess = sess_stack sess0
           \<and> currentCommit sess = currentCommit sess0"
proof -
  from assms obtain s1 where s1: "then_step (acquire c) (prepare c) = Continue s1"
    and f: "finalizer_step c s1 = Continue sess"
    unfolding to_resync_def by (blast dest: then_step_Continue)
  from s1 obtain s0 where s0: "acquire c = Continue s0" and p: "prepare c s0 = Continue s1"
    by (blast dest: then_step_Continue)
  have a: "\<forall>x \<in> set (ops s0). \<not> automation_operation x"
    using acquire_Continue(3)[OF s0] by blast
  have e1: "s1 = s0\<lparr>ops := ops s0 @ [EnsureStackOp, SetEnvsOp, SetSecretEnvsOp]\<rparr>"
    using prepare_Continue[OF p] .
  have b: "\<forall>x \<in> set (ops s1). \<not> automation_operation x"
    using a by (auto simp: e1)
  from finalizer_step_Continue(3)[OF f] obtain os where
    os: "ops sess = ops s1 @ os" "\<forall>x \<in> set os. \<not> automation_operation x" by blast
  show "\<forall>x \<in> set (ops sess). \<not> automation_operation x"
    using b os by auto
  show "\<exists>sess0. acquire c = Continue sess0 \<and> sess_stack sess = sess_stack sess0
           \<and> currentCommit sess = currentCommit sess0"
    using s0 finalizer_step_Continue(1,2)[OF f] by (auto simp: e1)
qed

lemma setup_Continue:
  assumes "then_step (acquire c) (prepare c) = Continue sess"
  shows "\<exists>sess0. acquire c = Continue sess0"
    and "\<forall>x \<in> set (ops sess). \<not> automation_operation x \<and> \<not> store_write x"
proof -
  from assms obtain s0 where s0: "acquire c = Continue s0" and p: "prepare c s0 = Continue sess"
    by (blast dest: then_step_Continue)
  show "\<exists>sess0. acquire c = Continue sess0" using s0 by blast
  show "\<forall>x \<in> set (ops sess). \<not> automation_operation x \<and> \<not> store_write x"
    using acquire_Continue(3)[OF s0] prepare_Continue[OF p] by auto
qed

lemma Reconcile_finalizer_Return:
  assumes "then_step (acquire c) (prepare c) = Continue sess"
    and "finalizer_step c sess = Return out os"
  shows "Reconcile c = (out, os @ [CleanupPulumiDir])"
proof -
  from setup_Continue(1)[OF assms(1)] obtain s0 where "acquire c = Continue s0" by blast
  moreover have "to_update c = Return out os"
    unfolding to_update_def to_refresh_def to_resync_def by (simp add: assms)
  ultimately show ?thesis unfolding Reconcile_def by simp
qed

lemma Reconcile_skip:
  assumes reach: "to_resync c = Continue sess"
    and step: "resync_step sess = Return out os"
  shows "Reconcile c = (out, os @ [CleanupPulumiDir])"
proof -
  from to_resync_Continue(2)[OF reach] obtain s0 where "acquire c = Continue s0" by blast
  moreover have "to_update c = Return out os"
    unfolding to_update_def to_refresh_def by (simp add: reach step)
  ultimately show ?thesis unfolding Reconcile_def by simp
qed

lemma to_update_Continue:
  assumes "to_update c = Continue sr"
  shows "\<exists>sess0. acquire c = Continue sess0"
proof -
  from assms obtain a where "to_refresh c = Continue a"
    unfolding to_update_def by (blast dest: then_step_Continue)
  then obtain b where "to_resync c = Continue b"
    unfolding to_refresh_def by (blast dest: then_step_Continue)
  from to_resync_Continue(2)[OF this] show ?thesis by blast
qed

lemma Reconcile_update:
  assumes "to_update c = Continue (sess, r)"
  shows "Reconcile c = (fst (update_step c (sess, r)),
                        ops sess @ snd (update_step c (sess, r)) @ [CleanupPulumiDir])"
proof -
  from to_update_Continue[OF assms] obtain s0 where "acquire c = Continue s0" by blast
  then show ?thesis unfolding Reconcile_def by (simp add: assms split: prod.splits)
qed

lemma update_step_UpOp: "\<exists>os. snd (update_step c sr) = UpOp # os"
  unfolding update_step_def
  by (auto split: prod.splits StackUpdateStatus.splits option.splits)

text \<open>\<^verbatim>\<open>GetStackOutputs\<close> returns an error or a table, never the nil map.\<close>

lemma GetStackOutputs_loop_not_nil: "GetStackOutputs_loop c outs acc \<noteq> Inr None"
  by (induction c outs acc rule: GetStackOutputs_loop.induct) (auto split: sum.splits)

lemma GetStackOutputs_not_nil: "GetStackOutputs c outs \<noteq> Inr None"
  by (simp add: GetStackOutputs_def GetStackOutputs_loop_not_nil)

subsection \<open>The poll of an unchanged revision\<close>

lemma sint_seconds:
  assumes "60 \<le> sint (x :: 64 word)" and "sint x \<le> 9223372036"
  shows "sint (x * Second) = sint x * 1000000000"
  using assms unfolding Second_def
  by (simp add: sint_word_ariths signed_take_bit_int_eq_self_iff)

lemma sint_resyncFreqSeconds:
  assumes "Branch repo \<noteq> [] \<or> ContinueResyncOnCommitMatch repo"
  shows "sint (resyncFreqSeconds stack repo) =
           spec_resync_delay (sint (ResyncFrequencySeconds stack))"
  using assms unfolding resyncFreqSeconds_def spec_resync_delay_def
  by (auto simp: Let_def max_def)

lemma spec_resync_delay_least: "60 \<le> spec_resync_delay n"
  by (simp add: spec_resync_delay_def)

lemma spec_resync_delay_bound: "n \<le> 9223372036 \<Longrightarrow> spec_resync_delay n \<le> 9223372036"
  by (simp add: spec_resync_delay_def)

text \<open>
  Claim C1, as amended. A pass over a git-sourced Stack that reaches the resync decision
  with branch tracking enabled, \<^verbatim>\<open>continueResyncOnCommitMatch\<close> false and the resolved
  revision equal to the last successful commit of the status performs no automation
  operation (no refresh, no update, no destroy; the selection of the stack and its
  configuration, which every pass does before the decision, are not counted) and returns,
  without error, the requeue delay \<^verbatim>\<open>time.Duration(resyncFreqSeconds) * time.Second\<close>.
  Whenever the configured frequency is at most 9223372036 seconds, that delay is exactly
  the delay of the specification (the configured seconds clamped to a minimum of 60, and
  60 when unset) in nanoseconds. Above that bound the 64-bit product wraps around.
\<close>

theorem unchanged_revision_skip:
  assumes reach: "to_resync c = Continue sess"
    and repo: "GitRepo (sess_stack sess) = Some repo"
    and track: "Branch repo \<noteq> []"
    and cont: "\<not> ContinueResyncOnCommitMatch repo"
    and lu: "LastUpdate (Status (inst sess)) = Some lastUpdate"
    and same: "LastSuccessfulCommit lastUpdate = currentCommit sess"
  shows "\<exists>res. Reconcile c = ((res, None), ops sess @ [CleanupPulumiDir]) \<and>
           (\<forall>x \<in> set (ops sess @ [CleanupPulumiDir]). \<not> automation_operation x) \<and>
           RequeueAfter res = resyncFreqSeconds (sess_stack sess) repo * Second \<and>
           (sint (ResyncFrequencySeconds (sess_stack sess)) \<le> 9223372036 \<longrightarrow>
              sint (RequeueAfter res) =
                spec_resync_delay (sint (ResyncFrequencySeconds (sess_stack sess))) * 1000000000)"
proof -
  let ?freq = "resyncFreqSeconds (sess_stack sess) repo"
  let ?conf = "sint (ResyncFrequencySeconds (sess_stack sess))"
  let ?res = "\<lparr>Requeue = False, RequeueAfter = ?freq * Second\<rparr>"
  have step: "resync_step sess = Return (?res, None) (ops sess)"
    unfolding resync_step_def using repo track cont lu same by (simp add: Let_def)
  have r: "Reconcile c = ((?res, None), ops sess @ [CleanupPulumiDir])"
    using Reconcile_skip[OF reach step] .
  have s: "sint ?freq = spec_resync_delay ?conf"
    using sint_resyncFreqSeconds[of repo "sess_stack sess"] track by simp
  have d: "?conf \<le> 9223372036 \<longrightarrow> sint (?freq * Second) = spec_resync_delay ?conf * 1000000000"
  proof
    assume b: "?conf \<le> 9223372036"
    have "60 \<le> sint ?freq" and "sint ?freq \<le> 9223372036"
      using s spec_resync_delay_least[of ?conf] spec_resync_delay_bound[OF b] by auto
    from sint_seconds[OF this] show "sint (?freq * Second) = spec_resync_delay ?conf * 1000000000"
      using s by simp
  qed
  show ?thesis using r d to_resync_Continue(1)[OF reach] by auto
qed

text \<open>
  The theorem at the pass of the tracked Stack whose repository is unchanged: the
  frequency is unset, and the pass polls again after 60 seconds.
\<close>

theorem unchanged_revision_skip_witness:
  "Reconcile example_calls =
     ((\<lparr>Requeue = False, RequeueAfter = 60000000000\<rparr>, None),
      [ClientGetStack, SetupGitAuthOp, SetupWorkdirWithGitRepoOp, EnsureStackOp, SetEnvsOp,
       SetSecretEnvsOp, CleanupPulumiDir]) \<and>
   sint (60000000000 :: 64 word) = spec_resync_delay 0 * 1000000000"
proof -
  have h1: "to_resync example_calls = Continue example_session"
    by (simp add: example_defs pass_defs)
  have h2: "GitRepo (sess_stack example_session) = Some example_repo"
    by (simp add: example_defs)
  have h3: "Branch example_repo \<noteq> []" by (simp add: example_defs)
  have h4: "\<not> ContinueResyncOnCommitMatch example_repo" by (simp add: example_defs)
  have h5: "LastUpdate (Status (inst example_session)) = Some example_update"
    by (simp add: example_defs)
  have h6: "LastSuccessfulCommit example_update = currentCommit example_session"
    by (simp add: example_defs)
  show ?thesis
    using unchanged_revision_skip[OF h1 h2 h3 h4 h5 h6]
    by (auto simp: example_defs pass_defs spec_resync_delay_def)
qed

lemmas overflow_defs = overflow_stack_def overflow_calls_def overflow_session_def

text \<open>
  Claim C1 as stated fails where the product overflows: with a configured frequency of
  9223372037 seconds every condition of the claim holds, and the pass returns a negative
  duration instead of 9223372037 seconds.
\<close>

theorem unchanged_revision_skip_overflow_counterexample:
  "to_resync overflow_calls = Continue overflow_session \<and>
   GitRepo (sess_stack overflow_session) = Some example_repo \<and>
   Branch example_repo \<noteq> [] \<and>
   \<not> ContinueResyncOnCommitMatch example_repo \<and>
   LastUpdate (Status (inst overflow_session)) = Some example_update \<and>
   LastSuccessfulCommit example_update = currentCommit overflow_session \<and>
   sint (ResyncFrequencySeconds (sess_stack overflow_session)) = 9223372037 \<and>
   spec_resync_delay 9223372037 * 1000000000 = 9223372037000000000 \<and>
   sint (RequeueAfter (fst (fst (Reconcile overflow_calls)))) = - 9223372036709551616 \<and>
   sint (RequeueAfter (fst (fst (Reconcile overflow_calls)))) \<noteq>
     spec_resync_delay 9223372037 * 1000000000"
  by (simp add: example_defs overflow_defs pass_defs spec_resync_delay_def)

subsection \<open>Deletion without the finalizer\<close>

text \<open>
  When the deletion timestamp is set and the finalizer is absent, the finalizer step
  neither finalizes nor returns: the pass goes on to the resync decision.
\<close>

lemma finalizer_step_falls_through:
  "DeletionTimestamp (inst sess) \<noteq> None \<Longrightarrow>
   \<not> contains (Finalizers (inst sess)) pulumiFinalizer \<Longrightarrow>
   finalizer_step c sess = Continue sess"
  by (simp add: finalizer_step_def)

lemmas deleting_defs = deleting_stack_def deleting_calls_def

text \<open>
  Claim C2 fails on the code. The pass over a Stack whose deletion timestamp is set and
  whose finalizer list lacks the finalizer of the controller, with a new commit on the
  tracked branch, runs the update and writes the status.
\<close>

theorem deleted_without_finalizer_runs_update:
  "DeletionTimestamp deleting_stack \<noteq> None \<and>
   \<not> contains (Finalizers deleting_stack) pulumiFinalizer \<and>
   ClientGetResult deleting_calls = GetOk deleting_stack \<and>
   Reconcile deleting_calls =
     ((\<lparr>Requeue = False, RequeueAfter = 60000000000\<rparr>, None),
      [ClientGetStack, SetupGitAuthOp, SetupWorkdirWithGitRepoOp, EnsureStackOp, SetEnvsOp,
       SetSecretEnvsOp, EmitEvent StackUpdateDetectedEvent, UpOp, GetLatestResource,
       UpdateResourceStatus
         (deleting_stack\<lparr>Status :=
            \<lparr>Outputs = Some [],
             LastUpdate = Some \<lparr>State = SucceededStackStateMessage,
                                 LastAttemptedCommit = ''beef'', LastSuccessfulCommit = ''beef'',
                                 Permalink = ''https://app/2'', LastResyncTime = 42\<rparr>\<rparr>\<rparr>),
       EmitEvent StackUpdateSuccessfulEvent, CleanupPulumiDir])"
  by (simp add: example_defs deleting_defs pass_defs)

subsection \<open>Finalization\<close>

lemma unique_position:
  assumes "xs @ x # ys = pre @ y # post"
    and "\<forall>a \<in> set xs. \<not> P a" and "\<forall>b \<in> set ys. \<not> P b" and "P y"
  shows "pre = xs \<and> y = x \<and> post = ys"
  using assms
proof (induction xs arbitrary: pre)
  case Nil
  then show ?case by (cases pre) auto
next
  case (Cons a xs)
  then show ?case by (cases pre) auto
qed

lemma RemoveFinalizer_absent:
  "\<not> contains (Finalizers (RemoveFinalizer obj f)) f"
proof -
  have "\<And>xs. \<not> contains (filter (\<lambda>x. x \<noteq> f) xs) f"
  proof -
    fix xs show "\<not> contains (filter (\<lambda>x. x \<noteq> f) xs) f" by (induction xs) auto
  qed
  then show ?thesis by (simp add: RemoveFinalizer_def)
qed

lemma finalize_destroy_fails:
  assumes "DestroyOnFinalize (sess_stack sess)" and "DestroyResult c = Some e"
  shows "finalize c sess =
    (Some (Wrap ''destroying resources for stack'' e), sess\<lparr>ops := ops sess @ [DestroyOp]\<rparr>)"
  using assms by (simp add: finalize_def finalizeStack_def DestroyStack_def)

lemma finalize_remove_fails:
  assumes "DestroyOnFinalize (sess_stack sess)" and "DestroyResult c = None"
    and "RemoveStackResult c = Some e"
  shows "finalize c sess =
    (Some (Wrap ''removing stack'' e), sess\<lparr>ops := ops sess @ [DestroyOp, RemoveStackOp]\<rparr>)"
  using assms by (simp add: finalize_def finalizeStack_def DestroyStack_def)

lemma finalize_destroyed:
  assumes "DestroyOnFinalize (sess_stack sess)" and "DestroyResult c = None"
    and "RemoveStackResult c = None"
  shows "\<exists>err sess1 post. finalize c sess = (err, sess1) \<and>
     ops sess1 = ops sess @ [DestroyOp, RemoveStackOp,
        UpdateResource (RemoveFinalizer (inst sess) pulumiFinalizer)] @ post \<and>
     (\<forall>x \<in> set post. \<not> store_write x)"
  using assms
  by (auto simp: finalize_def finalizeStack_def DestroyStack_def Let_def split: option.splits)

text \<open>
  Claim C3. In a pass that reaches the finalizer step with the deletion timestamp set,
  the finalizer present and \<^verbatim>\<open>destroyOnFinalize\<close> true, every write of the resource to the
  store comes after both the destroy and the removal of the stack, and the object written
  is the resource without the finalizer. If the destroy or the removal of the stack
  fails, the pass returns an error and writes the resource not at all. If both succeed,
  the destroy, the removal of the stack and the write of the resource without the
  finalizer follow one another.
\<close>

theorem finalization_destroys_before_finalizer_removal:
  assumes reach: "then_step (acquire c) (prepare c) = Continue sess"
    and deleted: "DeletionTimestamp (inst sess) \<noteq> None"
    and present: "contains (Finalizers (inst sess)) pulumiFinalizer"
    and destroy: "DestroyOnFinalize (sess_stack sess)"
  shows "(\<forall>pre obj post. snd (Reconcile c) = pre @ UpdateResource obj # post \<longrightarrow>
            DestroyOp \<in> set pre \<and> RemoveStackOp \<in> set pre \<and>
            obj = RemoveFinalizer (inst sess) pulumiFinalizer \<and>
            \<not> contains (Finalizers obj) pulumiFinalizer) \<and>
         (DestroyResult c \<noteq> None \<or> RemoveStackResult c \<noteq> None \<longrightarrow>
            snd (fst (Reconcile c)) \<noteq> None \<and>
            (\<forall>obj. UpdateResource obj \<notin> set (snd (Reconcile c)))) \<and>
         (DestroyResult c = None \<and> RemoveStackResult c = None \<longrightarrow>
            (\<exists>pre post. snd (Reconcile c) =
               pre @ [DestroyOp, RemoveStackOp,
                      UpdateResource (RemoveFinalizer (inst sess) pulumiFinalizer)] @ post))"
proof -
  have clean: "\<forall>x \<in> set (ops sess). \<not> store_write x"
    using setup_Continue(2)[OF reach] by blast
  have step: "finalizer_step c sess =
      Return (emptyResult, fst (finalize c sess)) (ops (snd (finalize c sess)))"
    using deleted present by (simp add: finalizer_step_def split: prod.splits)
  have rec: "Reconcile c =
      ((emptyResult, fst (finalize c sess)), ops (snd (finalize c sess)) @ [CleanupPulumiDir])"
    using Reconcile_finalizer_Return[OF reach step] .
  show ?thesis
  proof (cases "DestroyResult c")
    case (Some e)
    have "\<forall>x \<in> set (snd (Reconcile c)). \<not> store_write x"
      using clean by (simp add: rec finalize_destroy_fails[OF destroy Some])
    moreover have "snd (fst (Reconcile c)) \<noteq> None"
      by (simp add: rec finalize_destroy_fails[OF destroy Some])
    ultimately show ?thesis using Some by fastforce
  next
    case None
    show ?thesis
    proof (cases "RemoveStackResult c")
      case (Some e)
      have "\<forall>x \<in> set (snd (Reconcile c)). \<not> store_write x"
        using clean by (simp add: rec finalize_remove_fails[OF destroy None Some])
      moreover have "snd (fst (Reconcile c)) \<noteq> None"
        by (simp add: rec finalize_remove_fails[OF destroy None Some])
      ultimately show ?thesis using Some by fastforce
    next
      case rs: None
      let ?obj = "RemoveFinalizer (inst sess) pulumiFinalizer"
      from finalize_destroyed[OF destroy None rs] obtain err sess1 post where
        f: "finalize c sess = (err, sess1)"
        and o: "ops sess1 = ops sess @ [DestroyOp, RemoveStackOp, UpdateResource ?obj] @ post"
        and p: "\<forall>x \<in> set post. \<not> store_write x" by blast
      have os: "snd (Reconcile c) =
          (ops sess @ [DestroyOp, RemoveStackOp]) @ UpdateResource ?obj # (post @ [CleanupPulumiDir])"
        by (simp add: rec f o)
      have before: "\<forall>a \<in> set (ops sess @ [DestroyOp, RemoveStackOp]). \<not> store_write a"
        using clean by auto
      have after: "\<forall>b \<in> set (post @ [CleanupPulumiDir]). \<not> store_write b"
        using p by auto
      have ordered: "\<forall>pre obj post'. snd (Reconcile c) = pre @ UpdateResource obj # post' \<longrightarrow>
            DestroyOp \<in> set pre \<and> RemoveStackOp \<in> set pre \<and> obj = ?obj \<and>
            \<not> contains (Finalizers obj) pulumiFinalizer"
      proof (intro allI impI)
        fix pre obj post'
        assume "snd (Reconcile c) = pre @ UpdateResource obj # post'"
        then have eq: "(ops sess @ [DestroyOp, RemoveStackOp]) @ UpdateResource ?obj #
            (post @ [CleanupPulumiDir]) = pre @ UpdateResource obj # post'"
          using os by simp
        have "store_write (UpdateResource obj)" by simp
        from unique_position[OF eq before after this]
        have "pre = ops sess @ [DestroyOp, RemoveStackOp]" and "obj = ?obj" by auto
        then show "DestroyOp \<in> set pre \<and> RemoveStackOp \<in> set pre \<and> obj = ?obj \<and>
            \<not> contains (Finalizers obj) pulumiFinalizer"
          using RemoveFinalizer_absent by auto
      qed
      have present': "\<exists>pre post'. snd (Reconcile c) =
          pre @ [DestroyOp, RemoveStackOp, UpdateResource ?obj] @ post'"
        using os by (intro exI[of _ "ops sess"] exI[of _ "post @ [CleanupPulumiDir]"]) simp
      show ?thesis using ordered present' None rs by blast
    qed
  qed
qed

lemmas finalizing_defs = finalizing_stack_def finalizing_calls_def finalizing_session_def
  destroy_failing_calls_def

text \<open>
  The theorem at the pass of a Stack under deletion, once with a destroy that succeeds and
  once with a destroy that fails.
\<close>

theorem finalization_destroys_before_finalizer_removal_witness:
  "snd (Reconcile finalizing_calls) =
     [ClientGetStack, SetupGitAuthOp, SetupWorkdirWithGitRepoOp, EnsureStackOp, SetEnvsOp,
      SetSecretEnvsOp, DestroyOp, RemoveStackOp,
      UpdateResource (finalizing_stack\<lparr>Finalizers := []\<rparr>), WaitForDeletion,
      CleanupPulumiDir] \<and>
   snd (fst (Reconcile destroy_failing_calls)) \<noteq> None \<and>
   UpdateResource (finalizing_stack\<lparr>Finalizers := []\<rparr>) \<notin> set (snd (Reconcile destroy_failing_calls))"
proof -
  have h1: "then_step (acquire finalizing_calls) (prepare finalizing_calls) =
      Continue finalizing_session"
    by (simp add: example_defs finalizing_defs pass_defs)
  have h1': "then_step (acquire destroy_failing_calls) (prepare destroy_failing_calls) =
      Continue finalizing_session"
    by (simp add: example_defs finalizing_defs pass_defs)
  have h2: "DeletionTimestamp (inst finalizing_session) \<noteq> None" by (simp add: example_defs finalizing_defs)
  have h3: "contains (Finalizers (inst finalizing_session)) pulumiFinalizer"
    by (simp add: example_defs finalizing_defs pulumiFinalizer_def)
  have h4: "DestroyOnFinalize (sess_stack finalizing_session)" by (simp add: example_defs finalizing_defs)
  have r: "RemoveFinalizer (inst finalizing_session) pulumiFinalizer =
      finalizing_stack\<lparr>Finalizers := []\<rparr>"
    by (simp add: example_defs finalizing_defs pass_defs)
  have d: "DestroyResult finalizing_calls = None \<and> RemoveStackResult finalizing_calls = None"
    by (simp add: example_defs finalizing_defs)
  have f: "DestroyResult destroy_failing_calls \<noteq> None" by (simp add: example_defs finalizing_defs)
  have one: "snd (Reconcile finalizing_calls) =
     [ClientGetStack, SetupGitAuthOp, SetupWorkdirWithGitRepoOp, EnsureStackOp, SetEnvsOp,
      SetSecretEnvsOp, DestroyOp, RemoveStackOp,
      UpdateResource (finalizing_stack\<lparr>Finalizers := []\<rparr>), WaitForDeletion,
      CleanupPulumiDir]"
    by (simp add: example_defs finalizing_defs pass_defs)
  show ?thesis
    using finalization_destroys_before_finalizer_removal[OF h1 h2 h3 h4]
      finalization_destroys_before_finalizer_removal[OF h1' h2 h3 h4] d f r one
    by auto
qed

subsection \<open>Conflict and missing stack\<close>

text \<open>
  In a pass that reaches the update: when the update ends in a conflict and
  \<^verbatim>\<open>retryOnUpdateConflict\<close> is true, the pass returns no error and a requeue after 5
  seconds; when it is false, no error and no requeue.
\<close>

lemma update_conflict:
  assumes reach: "to_update c = Continue (sess, successResult)"
  shows "(fst (UpdateStack c) = StackUpdateConflict \<and> RetryOnUpdateConflict (sess_stack sess) \<longrightarrow>
            fst (Reconcile c) = (\<lparr>Requeue = False, RequeueAfter = Second * 5\<rparr>, None)) \<and>
         (fst (UpdateStack c) = StackUpdateConflict \<and> \<not> RetryOnUpdateConflict (sess_stack sess) \<longrightarrow>
            fst (Reconcile c) = (\<lparr>Requeue = False, RequeueAfter = 0\<rparr>, None)) \<and>
         sint (Second * 5) = 5 * 1000000000 \<and>
         UpOp \<in> set (snd (Reconcile c))"
proof -
  have r: "fst (Reconcile c) = fst (update_step c (sess, successResult))"
    by (simp add: Reconcile_update[OF reach])
  have u: "UpOp \<in> set (snd (Reconcile c))"
    using update_step_UpOp[of c "(sess, successResult)"] by (auto simp: Reconcile_update[OF reach])
  have s: "sint (Second * 5) = 5 * 1000000000" by (simp add: Second_def)
  show ?thesis
    using u s unfolding r update_step_def
    by (auto simp: emptyResult_def split: prod.splits)
qed

lemmas conflict_defs = conflict_calls_def no_retry_stack_def no_retry_calls_def
  no_retry_session_def not_found_error_def not_found_calls_def

text \<open>The lemma at two passes: a conflict with the retry, and a conflict without it.\<close>

lemma update_conflict_examples:
  "fst (Reconcile conflict_calls) = (\<lparr>Requeue = False, RequeueAfter = 5000000000\<rparr>, None) \<and>
   fst (Reconcile no_retry_calls) = (\<lparr>Requeue = False, RequeueAfter = 0\<rparr>, None)"
proof -
  have h1: "to_update conflict_calls = Continue (changed_session, one_minute)"
    by (simp add: example_defs conflict_defs pass_defs)
  have h2: "to_update no_retry_calls = Continue (no_retry_session, one_minute)"
    by (simp add: example_defs conflict_defs pass_defs)
  have c1: "fst (UpdateStack conflict_calls) = StackUpdateConflict \<and>
            RetryOnUpdateConflict (sess_stack changed_session)"
    by (simp add: example_defs conflict_defs pass_defs)
  have c2: "fst (UpdateStack no_retry_calls) = StackUpdateConflict \<and>
            \<not> RetryOnUpdateConflict (sess_stack no_retry_session)"
    by (simp add: example_defs conflict_defs pass_defs)
  show ?thesis
    using update_conflict[OF h1] update_conflict[OF h2] c1 c2
    by (simp add: Second_def)
qed

text \<open>
  \<^verbatim>\<open>UpdateStack\<close> looks for the text of the 404 in \<^verbatim>\<open>result.StdErr\<close> (line 1215), on
  the path where \<^verbatim>\<open>autoStack.Up\<close> has returned an error. There the result is the zero
  value and its standard error is empty, so no update ends as \<^verbatim>\<open>StackNotFound\<close>.
\<close>

lemma UpdateStack_never_not_found: "fst (UpdateStack c) \<noteq> StackNotFound"
  unfolding UpdateStack_def Up_def zeroUpResult_def
  by (auto split: sum.splits option.splits)

text \<open>
  Claim C4 fails on the code, in its part on the stack that is not found. The pass whose
  update fails with the answer 404 of the backend, with \<^verbatim>\<open>retryOnUpdateConflict\<close> true,
  does not end as not found: the update ends as failed, and the pass emits the failure
  event, writes the status Failed and returns the error, with no requeue after 5 seconds.
\<close>

theorem not_found_ends_as_failed:
  "to_update not_found_calls = Continue (changed_session, one_minute) \<and>
   RetryOnUpdateConflict (sess_stack changed_session) \<and>
   Up not_found_calls = (zeroUpResult, Some not_found_error) \<and>
   not_found_error =
     ExternalError ''failed to run update: exit status 255: error: [404] Not found'' \<and>
   UpdateStack not_found_calls = (StackUpdateFailed, [], None, Some not_found_error) \<and>
   Reconcile not_found_calls =
     ((\<lparr>Requeue = False, RequeueAfter = 0\<rparr>, Some not_found_error),
      [ClientGetStack, SetupGitAuthOp, SetupWorkdirWithGitRepoOp, EnsureStackOp, SetEnvsOp,
       SetSecretEnvsOp, EmitEvent StackUpdateDetectedEvent, UpOp,
       EmitEvent StackUpdateFailureEvent,
       UpdateResourceStatus
         (example_stack\<lparr>Status :=
            \<lparr>Outputs = None,
             LastUpdate = Some \<lparr>State = FailedStackStateMessage,
                                 LastAttemptedCommit = ''beef'', LastSuccessfulCommit = ''c0ffee'',
                                 Permalink = [], LastResyncTime = 42\<rparr>\<rparr>\<rparr>),
       CleanupPulumiDir])"
  by (simp add: example_defs conflict_defs pass_defs)

subsection \<open>Extraction of an archive\<close>

lemma dirs_exist_iff: "dirs_exist root t \<longleftrightarrow> (\<forall>n \<le> length root. t (take n root) = Some Dir)"
  by (auto simp: dirs_exist_def list_all_iff less_Suc_eq_le)

lemma HasPrefix_append: "HasPrefix (sub @ post) sub"
  by (induction sub) auto

lemma HasPrefix_Contains: "HasPrefix s sub \<Longrightarrow> Contains s sub"
  by (cases s; cases sub) auto

lemma Contains_Cons: "Contains cs sub \<Longrightarrow> Contains (c # cs) sub"
  by simp

lemma split_slash_not_Nil: "split_slash s \<noteq> []"
  by (induction s) (auto split: list.splits)

lemma split_slash_first:
  "split_slash name = s0 # ss \<Longrightarrow> ss \<noteq> [] \<Longrightarrow> HasPrefix name (s0 @ ''/'')"
proof (induction name arbitrary: s0 ss)
  case Nil
  then show ?case by simp
next
  case (Cons c cs)
  show ?case
  proof (cases "c = CHR ''/''")
    case True
    with Cons.prems show ?thesis by auto
  next
    case False
    obtain t0 ts where sp: "split_slash cs = t0 # ts"
      using split_slash_not_Nil[of cs] by (cases "split_slash cs") auto
    with Cons.prems False have "s0 = c # t0" and "ss = ts" by auto
    with Cons.IH[OF sp] Cons.prems(2) show ?thesis by simp
  qed
qed

lemma split_slash_segment:
  "s \<in> set (butlast (split_slash name)) \<Longrightarrow> Contains name (s @ ''/'')"
proof (induction name)
  case Nil
  then show ?case by simp
next
  case (Cons c cs)
  show ?case
  proof (cases "c = CHR ''/''")
    case True
    with Cons.prems have "s = [] \<or> s \<in> set (butlast (split_slash cs))"
      by (auto simp: split_slash_not_Nil)
    then show ?thesis
    proof
      assume "s = []"
      then show ?thesis using True by simp
    next
      assume "s \<in> set (butlast (split_slash cs))"
      from Cons.IH[OF this] show ?thesis by simp
    qed
  next
    case False
    obtain t0 ts where sp: "split_slash cs = t0 # ts"
      using split_slash_not_Nil[of cs] by (cases "split_slash cs") auto
    have res: "split_slash (c # cs) = (c # t0) # ts" using False sp by simp
    show ?thesis
    proof (cases "ts = []")
      case True
      with Cons.prems res show ?thesis by simp
    next
      case nonempty: False
      with Cons.prems res have "s = c # t0 \<or> s \<in> set (butlast ts)" by auto
      then show ?thesis
      proof
        assume s: "s = c # t0"
        have "HasPrefix (c # cs) ((c # t0) @ ''/'')"
          using split_slash_first[OF res nonempty] .
        then show ?thesis unfolding s by (rule HasPrefix_Contains)
      next
        assume "s \<in> set (butlast ts)"
        then have "s \<in> set (butlast (split_slash cs))" using sp nonempty by simp
        from Cons.IH[OF this] show ?thesis by simp
      qed
    qed
  qed
qed

lemma valid_no_inner_dotdot:
  assumes "validRelPath name"
  shows "''..'' \<notin> set (butlast (split_slash name))"
proof
  assume "''..'' \<in> set (butlast (split_slash name))"
  from split_slash_segment[OF this] have "Contains name ''../''" by simp
  with assms show False by (simp add: validRelPath_def split: if_splits)
qed

lemma clean_onto_append: "clean_onto p (ss @ ts) = clean_onto (clean_onto p ss) ts"
  by (induction ss arbitrary: p) auto

lemma clean_onto_stays:
  "''..'' \<notin> set segs \<Longrightarrow> \<exists>xs. clean_onto (root @ ys) segs = root @ xs"
proof (induction segs arbitrary: ys)
  case Nil
  then show ?case by simp
next
  case (Cons s segs)
  then have n: "''..'' \<notin> set segs" and s: "s \<noteq> ''..''" by auto
  show ?case
  proof (cases "s = [] \<or> s = ''.''")
    case True
    then show ?thesis using Cons.IH[OF n, of ys] by auto
  next
    case False
    then show ?thesis using Cons.IH[OF n, of "ys @ [s]"] s by auto
  qed
qed

lemma under_append: "under root (root @ xs)"
  by (simp add: under_def)

lemma near_Join:
  assumes "validRelPath name"
  shows "near root (Join root name)"
proof -
  let ?segs = "split_slash name"
  have segs: "?segs = butlast ?segs @ [last ?segs]"
    using split_slash_not_Nil[of name] by simp
  from clean_onto_stays[OF valid_no_inner_dotdot[OF assms], of root "[]"]
  obtain xs where xs: "clean_onto root (butlast ?segs) = root @ xs" by auto
  have "Join root name = clean_onto (root @ xs) [last ?segs]"
    unfolding Join_def by (subst segs) (simp add: clean_onto_append xs)
  moreover have "near root (clean_onto (root @ xs) [s])" for s
  proof (cases "xs = []")
    case True
    then show ?thesis by (auto simp: near_def under_def butlast_conv_take)
  next
    case False
    then show ?thesis by (auto simp: near_def under_def butlast_append)
  qed
  ultimately show ?thesis by simp
qed

lemma near_butlast: "near root p \<Longrightarrow> near root (butlast p)"
proof -
  assume "near root p"
  then consider (u) "under root p" | (pre) "take (length p) root = p" unfolding near_def by blast
  then show ?thesis
  proof cases
    case u
    then obtain xs where p: "p = root @ xs"
      unfolding under_def by (metis append_take_drop_id)
    show ?thesis
    proof (cases "xs = []")
      case True
      then show ?thesis using p by (simp add: near_def butlast_conv_take)
    next
      case False
      then show ?thesis using p by (simp add: near_def under_def butlast_append)
    qed
  next
    case pre
    then have "take (length (butlast p)) root = butlast p"
      by (metis butlast_conv_take length_butlast take_take min.absorb1 diff_le_self)
    then show ?thesis by (simp add: near_def)
  qed
qed

lemma take_length_le: "take (length q) xs = q \<Longrightarrow> length q \<le> length xs"
proof -
  assume a: "take (length q) xs = q"
  have "length (take (length q) xs) = min (length q) (length xs)" by simp
  then have "length q = min (length q) (length xs)" using a by simp
  then show ?thesis by (simp add: min_def split: if_splits)
qed

lemma take_take_prefix:
  assumes "take (length q) p = q" and "take (length p) r = p"
  shows "take (length q) r = q"
proof -
  have le: "length q \<le> length p" using take_length_le[OF assms(1)] .
  have "q = take (length q) (take (length p) r)" using assms by simp
  also have "\<dots> = take (length q) r" using le by (simp add: min_def)
  finally show ?thesis by simp
qed

lemma Mkdir_frame:
  "Mkdir p t = (e, t1) \<Longrightarrow> t1 = t \<or> (t p = None \<and> t1 = t(p \<mapsto> Dir))"
  by (auto simp: Mkdir_def split: option.splits node.splits)

lemma MkdirAll_frame:
  "MkdirAll p t = (e, t1) \<Longrightarrow>
     \<forall>q. t1 q \<noteq> t q \<longrightarrow> t q = None \<and> take (length q) p = q"
proof (induction p t arbitrary: e t1 rule: MkdirAll.induct)
  case (1 p t)
  show ?case
  proof (cases "t p")
    case (Some n)
    with "1.prems" show ?thesis
      by (subst (asm) MkdirAll.simps) (auto split: node.splits)
  next
    case None
    show ?thesis
    proof (cases "length p \<le> 1")
      case True
      with None "1.prems" have "Mkdir p t = (e, t1)"
        by (subst (asm) MkdirAll.simps) simp
      from Mkdir_frame[OF this] show ?thesis by (auto split: if_splits)
    next
      case False
      obtain e0 t0 where r: "MkdirAll (butlast p) t = (e0, t0)"
        by (cases "MkdirAll (butlast p) t")
      have ih: "\<forall>q. t0 q \<noteq> t q \<longrightarrow> t q = None \<and> take (length q) (butlast p) = q"
        using "1.IH"[OF None False r] .
      have pre: "take (length q) p = q" if "take (length q) (butlast p) = q" for q
      proof -
        have "take (length (butlast p)) p = butlast p" by (simp add: butlast_conv_take)
        from take_take_prefix[OF that this] show ?thesis .
      qed
      show ?thesis
      proof (cases e0)
        case (Some err)
        with None False r "1.prems" have "t1 = t0"
          by (subst (asm) MkdirAll.simps) simp
        then show ?thesis using ih pre by blast
      next
        case e0: None
        with None False r "1.prems" have "Mkdir p t0 = (e, t1)"
          by (subst (asm) MkdirAll.simps) simp
        from Mkdir_frame[OF this] have "t1 = t0 \<or> (t0 p = None \<and> t1 = t0(p \<mapsto> Dir))" .
        then show ?thesis
        proof
          assume "t1 = t0"
          then show ?thesis using ih pre by blast
        next
          assume a: "t0 p = None \<and> t1 = t0(p \<mapsto> Dir)"
          show ?thesis
          proof (intro allI impI)
            fix q assume d: "t1 q \<noteq> t q"
            show "t q = None \<and> take (length q) p = q"
            proof (cases "q = p")
              case True
              then show ?thesis using None by simp
            next
              case False
              then have "t0 q \<noteq> t q" using a d by simp
              then show ?thesis using ih pre by blast
            qed
          qed
        qed
      qed
    qed
  qed
qed

lemma prefix_of_append_short:
  "take (length q) (root @ xs) = q \<Longrightarrow> length q < length root \<Longrightarrow> take (length q) root = q"
  by simp

lemma prefix_of_append_long:
  assumes "take (length q) (root @ xs) = q" and "length root \<le> length q"
  shows "take (length root) q = root"
proof -
  have "q = root @ take (length q - length root) xs" using assms by simp
  then have "take (length root) q = take (length root) (root @ take (length q - length root) xs)"
    by simp
  then show ?thesis by simp
qed

lemma created_under_root:
  assumes wf: "dirs_exist root t" and n: "near root p"
    and q: "take (length q) p = q" and missing: "t q = None"
  shows "under root q"
proof (rule ccontr)
  assume nu: "\<not> under root q"
  have pre: "take (length q) root = q"
  proof (cases "under root p")
    case True
    then obtain xs where p: "p = root @ xs"
      unfolding under_def by (metis append_take_drop_id)
    have "length q < length root"
    proof (rule ccontr)
      assume "\<not> length q < length root"
      then have "length root \<le> length q" by simp
      from prefix_of_append_long[OF q[unfolded p] this] show False
        using nu by (simp add: under_def)
    qed
    from prefix_of_append_short[OF q[unfolded p] this] show ?thesis .
  next
    case False
    then have "take (length p) root = p" using n by (simp add: near_def)
    from take_take_prefix[OF q this] show ?thesis .
  qed
  have "length q \<le> length root" using take_length_le[OF pre] .
  then have "t (take (length q) root) = Some Dir" using wf by (simp add: dirs_exist_iff)
  then show False using missing pre by simp
qed

lemma MkdirAll_safe:
  assumes wf: "dirs_exist root t" and n: "near root p" and m: "MkdirAll p t = (e, t1)"
  shows "dirs_exist root t1 \<and> (\<forall>q. \<not> under root q \<longrightarrow> t1 q = t q)"
proof -
  have frame: "\<forall>q. t1 q \<noteq> t q \<longrightarrow> t q = None \<and> take (length q) p = q"
    using MkdirAll_frame[OF m] .
  have out: "\<forall>q. \<not> under root q \<longrightarrow> t1 q = t q"
    using frame created_under_root[OF wf n] by blast
  have "\<forall>k \<le> length root. t1 (take k root) = Some Dir"
  proof (intro allI impI)
    fix k assume "k \<le> length root"
    then have "t (take k root) = Some Dir" using wf by (simp add: dirs_exist_iff)
    then show "t1 (take k root) = Some Dir" using frame by (metis option.distinct(1))
  qed
  then show ?thesis using out by (simp add: dirs_exist_iff)
qed

lemma write_safe:
  assumes wf: "dirs_exist root t" and n: "near root p" and nd: "t p \<noteq> Some Dir"
  shows "dirs_exist root (t(p \<mapsto> x)) \<and> (\<forall>q. \<not> under root q \<longrightarrow> (t(p \<mapsto> x)) q = t q)"
proof -
  have np: "\<forall>k \<le> length root. take k root \<noteq> p"
    using wf nd by (auto simp: dirs_exist_iff)
  have u: "under root p"
  proof (rule ccontr)
    assume "\<not> under root p"
    then have pre: "take (length p) root = p" using n by (simp add: near_def)
    have "length p \<le> length root" using take_length_le[OF pre] .
    then show False using np pre by blast
  qed
  have "\<forall>k \<le> length root. (t(p \<mapsto> x)) (take k root) = Some Dir"
    using wf np by (simp add: dirs_exist_iff)
  then show ?thesis using u by (auto simp: dirs_exist_iff)
qed

lemma OpenFile_safe:
  assumes wf: "dirs_exist root t" and n: "near root p" and m: "OpenFile p t = (e, t1)"
  shows "dirs_exist root t1 \<and> (\<forall>q. \<not> under root q \<longrightarrow> t1 q = t q) \<and>
         (e = None \<longrightarrow> t1 p \<noteq> Some Dir)"
proof (cases "t p = Some Dir")
  case True
  with m have "t1 = t" and "e \<noteq> None" by (auto simp: OpenFile_def)
  then show ?thesis using wf by auto
next
  case False
  from m have "t1 = t \<and> e \<noteq> None \<or> t1 = t(p \<mapsto> File [])"
    by (auto simp: OpenFile_def split: option.splits node.splits)
  then show ?thesis
  proof
    assume "t1 = t \<and> e \<noteq> None"
    then show ?thesis using wf by auto
  next
    assume "t1 = t(p \<mapsto> File [])"
    then show ?thesis using write_safe[OF wf n False, of "File []"] by simp
  qed
qed

lemma Copy_safe:
  assumes wf: "dirs_exist root t" and n: "near root p" and nd: "t p \<noteq> Some Dir"
    and m: "Copy p f t = (k, e, t1)"
  shows "dirs_exist root t1 \<and> (\<forall>q. \<not> under root q \<longrightarrow> t1 q = t q)"
proof -
  from m have "t1 = t(p \<mapsto> File (take (Size f) (Payload f)))"
    by (auto simp: Copy_def Let_def)
  then show ?thesis using write_safe[OF wf n nd] by simp
qed

lemma untar_entry_step:
  assumes wf: "dirs_exist root t"
  shows "\<exists>t1. dirs_exist root t1 \<and> (\<forall>q. \<not> under root q \<longrightarrow> t1 q = t q) \<and>
           (snd (untar_loop root (Entry f # rest) madeDir t) = t1 \<or>
            (\<exists>md. untar_loop root (Entry f # rest) madeDir t = untar_loop root rest md t1))"
proof (cases "validRelPath (EntryName f)")
  case False
  then show ?thesis using wf by (intro exI[of _ t]) simp
next
  case True
  let ?abs = "Join root (FromSlash (EntryName f))"
  have n: "near root ?abs" using near_Join[OF True] by (simp add: FromSlash_def)
  show ?thesis
  proof (cases "Mode f")
    case ModeOther
    then show ?thesis using wf True by (intro exI[of _ t]) (simp add: Let_def)
  next
    case ModeDir
    obtain e1 t1 where m: "MkdirAll ?abs t = (e1, t1)" by (cases "MkdirAll ?abs t")
    from MkdirAll_safe[OF wf n m]
    have s1: "dirs_exist root t1" "\<forall>q. \<not> under root q \<longrightarrow> t1 q = t q" by auto
    show ?thesis
    proof (cases e1)
      case (Some err)
      then have "snd (untar_loop root (Entry f # rest) madeDir t) = t1"
        using True ModeDir m by (simp add: Let_def)
      then show ?thesis using s1 by blast
    next
      case None
      then have "untar_loop root (Entry f # rest) madeDir t =
          untar_loop root rest (?abs # madeDir) t1"
        using True ModeDir m by (simp add: Let_def)
      then show ?thesis using s1 by blast
    qed
  next
    case ModeRegular
    let ?d = "DirOf ?abs"
    let ?first = "if ?d \<notin> set madeDir then MkdirAll (DirOf ?abs) t else (None, t)"
    let ?md = "if ?d \<notin> set madeDir then ?d # madeDir else madeDir"
    obtain e1 t1 where m1: "?first = (e1, t1)" by (cases ?first)
    have nd: "near root ?d" using near_butlast[OF n] by (simp add: DirOf_def)
    have s1: "dirs_exist root t1 \<and> (\<forall>q. \<not> under root q \<longrightarrow> t1 q = t q)"
    proof (cases "?d \<notin> set madeDir")
      case True
      then have "MkdirAll ?d t = (e1, t1)" using m1 by simp
      from MkdirAll_safe[OF wf nd this] show ?thesis .
    next
      case False
      then have "t1 = t" using m1 by simp
      then show ?thesis using wf by simp
    qed
    have unfold: "untar_loop root (Entry f # rest) madeDir t =
        (case (e1, t1) of
           (Some err, t1) \<Rightarrow> (Some err, t1)
         | (None, t1) \<Rightarrow>
             (case OpenFile ?abs t1 of
                (Some err, t2) \<Rightarrow> (Some err, t2)
              | (None, t2) \<Rightarrow>
                  (case Copy ?abs f t2 of
                     (k, Some err, t3) \<Rightarrow> (Some (ErrWriting ?abs err), t3)
                   | (k, None, t3) \<Rightarrow>
                       (if k \<noteq> Size f then (Some (ErrOnlyWrote k ?abs (Size f)), t3)
                        else untar_loop root rest ?md t3))))"
      using True ModeRegular m1 by (simp add: Let_def)
    show ?thesis
    proof (cases e1)
      case (Some err)
      then have "snd (untar_loop root (Entry f # rest) madeDir t) = t1"
        unfolding unfold by simp
      then show ?thesis using s1 by blast
    next
      case None
      obtain e2 t2 where m2: "OpenFile ?abs t1 = (e2, t2)" by (cases "OpenFile ?abs t1")
      from OpenFile_safe[OF _ n m2] s1
      have s2: "dirs_exist root t2" "\<forall>q. \<not> under root q \<longrightarrow> t2 q = t q"
        "e2 = None \<longrightarrow> t2 ?abs \<noteq> Some Dir" by auto
      show ?thesis
      proof (cases e2)
        case (Some err)
        then have "snd (untar_loop root (Entry f # rest) madeDir t) = t2"
          unfolding unfold using None m2 by simp
        then show ?thesis using s2 by blast
      next
        case e2: None
        obtain k e3 t3 where m3: "Copy ?abs f t2 = (k, e3, t3)"
          by (cases "Copy ?abs f t2") auto
        from Copy_safe[OF s2(1) n _ m3] s2 e2
        have s3: "dirs_exist root t3" "\<forall>q. \<not> under root q \<longrightarrow> t3 q = t q" by auto
        have "snd (untar_loop root (Entry f # rest) madeDir t) = t3 \<or>
              untar_loop root (Entry f # rest) madeDir t = untar_loop root rest ?md t3"
          unfolding unfold using None m2 e2 m3 by (cases e3) auto
        then show ?thesis using s3 by blast
      qed
    qed
  qed
qed

lemma untar_loop_safe:
  "dirs_exist root t \<Longrightarrow> \<forall>q. \<not> under root q \<longrightarrow> snd (untar_loop root items madeDir t) q = t q"
proof (induction items arbitrary: madeDir t)
  case Nil
  then show ?case by simp
next
  case (Cons item rest)
  show ?case
  proof (cases item)
    case (TarError err)
    then show ?thesis by simp
  next
    case (Entry f)
    from untar_entry_step[OF Cons.prems, of f rest madeDir] obtain t1 where
      wf1: "dirs_exist root t1" and out: "\<forall>q. \<not> under root q \<longrightarrow> t1 q = t q"
      and alt: "snd (untar_loop root (Entry f # rest) madeDir t) = t1 \<or>
            (\<exists>md. untar_loop root (Entry f # rest) madeDir t = untar_loop root rest md t1)"
      by blast
    from alt show ?thesis
    proof
      assume "snd (untar_loop root (Entry f # rest) madeDir t) = t1"
      then show ?thesis using out Entry by simp
    next
      assume "\<exists>md. untar_loop root (Entry f # rest) madeDir t = untar_loop root rest md t1"
      then obtain md where "untar_loop root (Entry f # rest) madeDir t = untar_loop root rest md t1"
        by blast
      then show ?thesis using Cons.IH[OF wf1, of md] out Entry by simp
    qed
  qed
qed

text \<open>
  What the extraction does guarantee. When the destination root and the directories above
  it exist, \<^verbatim>\<open>untar\<close> leaves every path that is not at or below the root as it was,
  whatever the archive and whether or not it returns an error.
\<close>

lemma untar_stays_under_root:
  assumes "dirs_exist root t"
  shows "\<forall>q. \<not> under root q \<longrightarrow> snd (untar r root t) q = t q"
  using untar_loop_safe[OF assms] by (cases r) (simp_all add: untar_def)

text \<open>
  An entry is refused, and nothing is written for it, when its name is empty, starts
  with a slash, or contains a backslash or the text \<^verbatim>\<open>../\<close>, and when it is neither a
  regular file nor a directory.
\<close>

lemma untar_rejects_name:
  "EntryName f = [] \<or> HasPrefix (EntryName f) ''/'' \<or> Contains (EntryName f) [CHR 0x5C] \<or>
   Contains (EntryName f) ''../'' \<Longrightarrow>
     untar (Inr (Entry f # rest)) root t = (Some (ErrTarInvalidName (EntryName f)), t)"
  by (auto simp: untar_def validRelPath_def)

lemma untar_rejects_type:
  "validRelPath (EntryName f) \<Longrightarrow> Mode f = ModeOther \<Longrightarrow>
     untar (Inr (Entry f # rest)) root t = (Some (ErrTarUnsupportedType (EntryName f)), t)"
  by (auto simp: untar_def Let_def)

text \<open>
  Claim C5 fails on the code. A name whose last segment is \<^verbatim>\<open>..\<close> has a parent-directory
  segment and passes \<^verbatim>\<open>validRelPath\<close>, which looks for the text \<^verbatim>\<open>../\<close> only. The directory
  entry named \<^verbatim>\<open>..\<close> is joined to the parent of the destination root, and \<^verbatim>\<open>untar\<close>
  returns no error.
\<close>

theorem trailing_dotdot_accepted:
  "validRelPath (EntryName traversal_entry) \<and>
   Join [''tmp'', ''pulumi_source1''] (EntryName traversal_entry) = [''tmp''] \<and>
   untar (Inr [Entry traversal_entry]) [''tmp'', ''pulumi_source1''] extraction_fs =
     (None, extraction_fs)"
  by (simp add: traversal_entry_def extraction_fs_def example_fs_def untar_def
      validRelPath_def Join_def FromSlash_def)

subsection \<open>The checksum of an artifact\<close>

text \<open>
  Claim C6. Once the artifact is downloaded, its digest is compared with the declared
  checksum: the digest is SHA-1 when the declared checksum has exactly 40 characters and
  SHA-256 otherwise. On a mismatch \<^verbatim>\<open>SetupWorkDirWithSource\<close> returns the mismatch
  error, having only made and removed the temporary directory and fetched the artifact,
  and the pass returns that error. Whenever the archive is extracted, the digest equals
  the declared checksum.
\<close>

theorem checksum_verified_before_extraction:
  assumes tmp: "MkdirTempResult sc = Inr rootdir"
    and url: "artifact_url src = Some url"
    and rev: "artifact_revision src = Some revision"
    and sum: "artifact_checksum src = Some checksum"
    and req: "NewRequestResult sc = None"
    and resp: "DoResult sc = Inr resp"
    and status: "StatusCode resp = 200"
    and body: "Body resp = Inr buf"
  shows "((if length checksum = 40 then sha1sum sc buf else sha256sum sc buf) \<noteq> checksum \<longrightarrow>
            SetupWorkDirWithSource sc src t =
              (Inl (ErrChecksumMismatch
                      (if length checksum = 40 then sha1sum sc buf else sha256sum sc buf) checksum),
               [MkdirTemp, HttpGet url, RemoveAllRootDir],
               RemoveAll rootdir (t(rootdir \<mapsto> Dir))) \<and>
            (\<forall>c obj ref. ClientGetResult c = GetOk obj \<and> GitRepo (Spec obj) = None \<and>
                  SourceRef (Spec obj) = Some ref \<and> GetSourceResult c = Inr src \<and>
                  source c = sc \<longrightarrow>
               Reconcile c =
                 ((emptyResult,
                   Some (ErrChecksumMismatch
                      (if length checksum = 40 then sha1sum sc buf else sha256sum sc buf) checksum)),
                  [ClientGetStack, ClientGetSource, MkdirTemp, HttpGet url, RemoveAllRootDir]))) \<and>
         (\<forall>r os t1. SetupWorkDirWithSource sc src t = (r, os, t1) \<and> Untar \<in> set os \<longrightarrow>
            (if length checksum = 40 then sha1sum sc buf else sha256sum sc buf) = checksum) \<and>
         ((if length checksum = 40 then sha1sum sc buf else sha256sum sc buf) = checksum \<longrightarrow>
            Untar \<in> set (fst (snd (SetupWorkDirWithSource sc src t))))"
  using assms
  unfolding SetupWorkDirWithSource_def fetch_artifact_def Reconcile_def acquire_def
  by (auto simp: Let_def split: prod.splits option.splits sum.splits)

lemmas tampered_defs = tampered_source_def artifact_stack_def tampered_calls_def

text \<open>
  The theorem at the pass over an artifact whose declared checksum has 40 characters and
  differs from the SHA-1 digest of the download.
\<close>

theorem checksum_verified_before_extraction_witness:
  "Reconcile tampered_calls =
     ((\<lparr>Requeue = False, RequeueAfter = 0\<rparr>,
       Some (ErrChecksumMismatch (replicate 40 CHR ''a'') (replicate 40 CHR ''c''))),
      [ClientGetStack, ClientGetSource, MkdirTemp, HttpGet ''http://source/a.tar.gz'',
       RemoveAllRootDir])"
proof -
  have h1: "MkdirTempResult example_source_calls = Inr [''tmp'', ''pulumi_source1'']"
    by (simp add: example_defs tampered_defs)
  have h2: "artifact_url tampered_source = Some ''http://source/a.tar.gz''"
    by (simp add: example_defs tampered_defs)
  have h3: "artifact_revision tampered_source = Some ''main/c0ffee''" by (simp add: example_defs tampered_defs)
  have h4: "artifact_checksum tampered_source = Some (replicate 40 CHR ''c'')"
    by (simp add: example_defs tampered_defs)
  have h5: "NewRequestResult example_source_calls = None" by (simp add: example_defs tampered_defs)
  have h6: "DoResult example_source_calls =
      Inr \<lparr>StatusCode = 200, StatusText = ''200 OK'', Body = Inr ''archive''\<rparr>"
    by (simp add: example_defs tampered_defs)
  have h7: "StatusCode \<lparr>StatusCode = 200, StatusText = ''200 OK'', Body = Inr ''archive''\<rparr> = 200"
    by simp
  have h8: "Body \<lparr>StatusCode = 200, StatusText = ''200 OK'', Body = Inr ''archive''\<rparr> =
      Inr ''archive''" by simp
  have m: "(if length (replicate 40 CHR ''c'') = 40 then sha1sum example_source_calls ''archive''
            else sha256sum example_source_calls ''archive'') = replicate 40 CHR ''a''"
    by (simp add: example_defs tampered_defs)
  have ne: "replicate 40 CHR ''a'' \<noteq> replicate 40 CHR ''c''"
    by (simp add: replicate_eq_replicate)
  have i: "ClientGetResult tampered_calls = GetOk artifact_stack \<and>
      GitRepo (Spec artifact_stack) = None \<and>
      SourceRef (Spec artifact_stack) =
        Some \<lparr>APIVersion = ''source.toolkit.fluxcd.io/v1beta2'', Kind = ''GitRepository'',
              SourceName = ''infra''\<rparr> \<and>
      GetSourceResult tampered_calls = Inr tampered_source \<and>
      source tampered_calls = example_source_calls"
    by (simp add: example_defs tampered_defs)
  show ?thesis
    using checksum_verified_before_extraction[OF h1 h2 h3 h4 h5 h6 h7 h8, of example_fs]
      m ne i
    by (simp add: emptyResult_def)
qed

subsection \<open>The status after the update\<close>

lemma capture_outputs_status:
  assumes "UpdateResourceStatus obj \<in> set (snd (capture_outputs c sess r permalink result))"
  shows "LastUpdate (Status obj) = Some
           \<lparr>State = SucceededStackStateMessage, LastAttemptedCommit = currentCommit sess,
            LastSuccessfulCommit = currentCommit sess, Permalink = permalink,
            LastResyncTime = Now c\<rparr>"
  using assms unfolding capture_outputs_def
  by (auto simp: Let_def split: option.splits sum.splits)

lemma capture_outputs_writes:
  assumes "GetStackOutputs c (UpOutputs res) = Inr outs" and "SuccessGet c = Inr latest"
  shows "\<exists>obj. UpdateResourceStatus obj \<in> set (snd (capture_outputs c sess r permalink (Some res)))"
  using assms GetStackOutputs_not_nil[of c "UpOutputs res"] unfolding capture_outputs_def
  by (auto simp: Let_def split: option.splits sum.splits)

text \<open>
  Claim C7. In a pass that reaches the update, let \<open>os\<close> be the operations after the
  update. When the update succeeds, every status that \<open>os\<close> writes has the last attempted
  and the last successful commit equal to the current revision, the permalink of the
  update, the state Succeeded and the time of the write; and the status is written
  unless the outputs cannot be captured or the resource cannot be read again. When the
  update fails, \<open>os\<close> is the failure event and one status write of the resource the pass
  holds, changed in the last update only: the last attempted commit is the current
  revision, the state is Failed, the permalink is empty and the time is now, and the last
  successful commit is what it was (empty when there was no last update).
\<close>

theorem status_after_update:
  assumes reach: "to_update c = Continue (sess, successResult)"
  shows "\<exists>os. snd (Reconcile c) = ops sess @ UpOp # os @ [CleanupPulumiDir] \<and>
     (\<forall>res. Up c = (res, None) \<longrightarrow>
        (\<forall>obj. UpdateResourceStatus obj \<in> set os \<longrightarrow>
           LastUpdate (Status obj) = Some
             \<lparr>State = SucceededStackStateMessage,
              LastAttemptedCommit = currentCommit sess,
              LastSuccessfulCommit = currentCommit sess,
              Permalink = (case GetPermalink c (StdOut res) of None \<Rightarrow> [] | Some p \<Rightarrow> p),
              LastResyncTime = Now c\<rparr>) \<and>
        (\<forall>outs latest. GetStackOutputs c (UpOutputs res) = Inr outs \<and> SuccessGet c = Inr latest \<longrightarrow>
           (\<exists>obj. UpdateResourceStatus obj \<in> set os))) \<and>
     (\<forall>res e. Up c = (res, Some e) \<and> fst (UpdateStack c) = StackUpdateFailed \<longrightarrow>
        (\<exists>u. os = [EmitEvent StackUpdateFailureEvent,
                    UpdateResourceStatus
                      ((inst sess)\<lparr>Status := (Status (inst sess))\<lparr>LastUpdate := Some u\<rparr>\<rparr>)] \<and>
           u = (case LastUpdate (Status (inst sess)) of
                  None \<Rightarrow> zeroStackUpdateState | Some prior \<Rightarrow> prior)
               \<lparr>LastAttemptedCommit := currentCommit sess, State := FailedStackStateMessage,
                Permalink := [], LastResyncTime := Now c\<rparr> \<and>
           LastAttemptedCommit u = currentCommit sess \<and>
           LastSuccessfulCommit u =
             (case LastUpdate (Status (inst sess)) of
                None \<Rightarrow> [] | Some prior \<Rightarrow> LastSuccessfulCommit prior)))"
proof -
  from update_step_UpOp[of c "(sess, successResult)"] obtain os where
    os: "snd (update_step c (sess, successResult)) = UpOp # os" by blast
  have r: "snd (Reconcile c) = ops sess @ UpOp # os @ [CleanupPulumiDir]"
    by (simp add: Reconcile_update[OF reach] os)
  have ok: "\<forall>res. Up c = (res, None) \<longrightarrow>
      os = snd (capture_outputs c sess successResult
                  (case GetPermalink c (StdOut res) of None \<Rightarrow> [] | Some p \<Rightarrow> p) (Some res))"
    using os unfolding update_step_def UpdateStack_def
    by (auto split: prod.splits option.splits)
  have bad: "\<forall>res e. Up c = (res, Some e) \<and> fst (UpdateStack c) = StackUpdateFailed \<longrightarrow>
      os = snd (snd (markStackFailed c (inst sess) e (currentCommit sess) []))"
    using os unfolding update_step_def UpdateStack_def
    by (auto split: prod.splits option.splits if_splits)
  have mark: "\<And>e. \<exists>u. snd (snd (markStackFailed c (inst sess) e (currentCommit sess) [])) =
         [EmitEvent StackUpdateFailureEvent,
          UpdateResourceStatus
            ((inst sess)\<lparr>Status := (Status (inst sess))\<lparr>LastUpdate := Some u\<rparr>\<rparr>)] \<and>
         u = (case LastUpdate (Status (inst sess)) of
                None \<Rightarrow> zeroStackUpdateState | Some prior \<Rightarrow> prior)
             \<lparr>LastAttemptedCommit := currentCommit sess, State := FailedStackStateMessage,
              Permalink := [], LastResyncTime := Now c\<rparr> \<and>
         LastAttemptedCommit u = currentCommit sess \<and>
         LastSuccessfulCommit u =
           (case LastUpdate (Status (inst sess)) of
              None \<Rightarrow> [] | Some prior \<Rightarrow> LastSuccessfulCommit prior)"
    unfolding markStackFailed_def
    by (auto simp: Let_def zeroStackUpdateState_def split: option.splits)
  show ?thesis
  proof (intro exI[of _ os] conjI allI impI)
    show "snd (Reconcile c) = ops sess @ UpOp # os @ [CleanupPulumiDir]" by (rule r)
  next
    fix res obj
    assume "Up c = (res, None)" and "UpdateResourceStatus obj \<in> set os"
    then show "LastUpdate (Status obj) = Some
             \<lparr>State = SucceededStackStateMessage,
              LastAttemptedCommit = currentCommit sess,
              LastSuccessfulCommit = currentCommit sess,
              Permalink = (case GetPermalink c (StdOut res) of None \<Rightarrow> [] | Some p \<Rightarrow> p),
              LastResyncTime = Now c\<rparr>"
      using ok capture_outputs_status by metis
  next
    fix res outs latest
    assume "Up c = (res, None)"
      and "GetStackOutputs c (UpOutputs res) = Inr outs \<and> SuccessGet c = Inr latest"
    then show "\<exists>obj. UpdateResourceStatus obj \<in> set os"
      using ok capture_outputs_writes by metis
  next
    fix res e
    assume "Up c = (res, Some e) \<and> fst (UpdateStack c) = StackUpdateFailed"
    then have "os = snd (snd (markStackFailed c (inst sess) e (currentCommit sess) []))"
      using bad by blast
    then show "\<exists>u. os = [EmitEvent StackUpdateFailureEvent,
                    UpdateResourceStatus
                      ((inst sess)\<lparr>Status := (Status (inst sess))\<lparr>LastUpdate := Some u\<rparr>\<rparr>)] \<and>
           u = (case LastUpdate (Status (inst sess)) of
                  None \<Rightarrow> zeroStackUpdateState | Some prior \<Rightarrow> prior)
               \<lparr>LastAttemptedCommit := currentCommit sess, State := FailedStackStateMessage,
                Permalink := [], LastResyncTime := Now c\<rparr> \<and>
           LastAttemptedCommit u = currentCommit sess \<and>
           LastSuccessfulCommit u =
             (case LastUpdate (Status (inst sess)) of
                None \<Rightarrow> [] | Some prior \<Rightarrow> LastSuccessfulCommit prior)"
      using mark[of e] by simp
  qed
qed

text \<open>
  The theorem at two passes over a Stack whose last update succeeded at \<^verbatim>\<open>c0ffee\<close>, with
  the repository now at \<^verbatim>\<open>beef\<close>: an update that succeeds and one that fails.
\<close>

theorem status_after_update_witness:
  "snd (Reconcile changed_calls) =
     ops changed_session @
     [UpOp, GetLatestResource,
      UpdateResourceStatus
        (example_stack\<lparr>Status :=
           \<lparr>Outputs = Some [],
            LastUpdate = Some \<lparr>State = SucceededStackStateMessage,
                                LastAttemptedCommit = ''beef'', LastSuccessfulCommit = ''beef'',
                                Permalink = ''https://app/2'', LastResyncTime = 42\<rparr>\<rparr>\<rparr>),
      EmitEvent StackUpdateSuccessfulEvent, CleanupPulumiDir] \<and>
   snd (Reconcile failed_calls) =
     ops changed_session @
     [UpOp, EmitEvent StackUpdateFailureEvent,
      UpdateResourceStatus
        (example_stack\<lparr>Status :=
           \<lparr>Outputs = None,
            LastUpdate = Some \<lparr>State = FailedStackStateMessage,
                                LastAttemptedCommit = ''beef'', LastSuccessfulCommit = ''c0ffee'',
                                Permalink = [], LastResyncTime = 42\<rparr>\<rparr>\<rparr>),
      CleanupPulumiDir]"
proof -
  have h1: "to_update changed_calls = Continue (changed_session, one_minute)"
    by (simp add: example_defs failed_calls_def pass_defs)
  have h2: "to_update failed_calls = Continue (changed_session, one_minute)"
    by (simp add: example_defs failed_calls_def pass_defs)
  have u1: "Up changed_calls =
      (\<lparr>StdOut = ''View Live: https://app/2'', StdErr = [], UpOutputs = []\<rparr>, None)"
    by (simp add: example_defs Up_def)
  have u2: "Up failed_calls =
      (zeroUpResult,
       Some (ExternalError ''failed to run update: exit status 255: error: update failed'')) \<and>
      fst (UpdateStack failed_calls) = StackUpdateFailed"
    by (simp add: example_defs failed_calls_def pass_defs)
  show ?thesis
    using status_after_update[OF h1] status_after_update[OF h2] u1 u2
    by (simp add: example_defs failed_calls_def pass_defs)
qed

subsection \<open>Resolution of resource references\<close>

text \<open>
  Claim C8. Resolving a reference whose target is absent returns an error that carries
  the coordinates of the reference: the name of an environment variable that is unset or
  empty, the path of a file that cannot be read, the namespace and name of a secret that
  cannot be fetched, the key, namespace and name when the secret lacks the key. The four
  errors differ from one another. Resolving a literal reference that has its literal
  returns the value.
\<close>

theorem resolveResourceRef_absent_target:
  "(SelectorType ref = ResourceSelectorEnv \<and> Env ref = Some name \<and> Getenv w name = [] \<longrightarrow>
      resolveResourceRef w ns ref = Inl (ErrMissingEnvValue name)) \<and>
   (SelectorType ref = ResourceSelectorFS \<and> FileSystem ref = Some p \<and> ReadFile w p = Inl e \<longrightarrow>
      resolveResourceRef w ns ref = Inl (ErrReadingPath p e)) \<and>
   (SelectorType ref = ResourceSelectorSecret \<and> SecretRef ref = Some sel \<and>
    GetSecret w (if Namespace sel = [] then ns else Namespace sel) (Name sel) = Inl e \<longrightarrow>
      resolveResourceRef w ns ref = Inl (ErrSecretGet (Namespace sel) (Name sel) e)) \<and>
   (SelectorType ref = ResourceSelectorSecret \<and> SecretRef ref = Some sel \<and>
    GetSecret w (if Namespace sel = [] then ns else Namespace sel) (Name sel) = Inr secret_data \<and>
    secret_data (Key sel) = None \<longrightarrow>
      resolveResourceRef w ns ref =
        Inl (ErrNoKeyInSecret (Key sel) (Namespace sel) (Name sel))) \<and>
   (SelectorType ref = ResourceSelectorLiteral \<and> LiteralRef ref = Some v \<longrightarrow>
      resolveResourceRef w ns ref = Inr v) \<and>
   distinct [ErrMissingEnvValue name, ErrReadingPath p e,
             ErrSecretGet (Namespace sel) (Name sel) e,
             ErrNoKeyInSecret (Key sel) (Namespace sel) (Name sel)]"
  unfolding resolveResourceRef_def by (auto simp: Let_def)

lemmas reference_defs = example_world_def env_ref_def fs_ref_def secret_ref_def key_ref_def
  literal_ref_def

text \<open>
  The theorem at five references: a variable that is not set, a file that is not there, a
  secret that is not there, a secret without the key, and a literal.
\<close>

theorem resolveResourceRef_absent_target_witness:
  "resolveResourceRef example_world ''default'' env_ref = Inl (ErrMissingEnvValue ''TOKEN'') \<and>
   resolveResourceRef example_world ''default'' fs_ref =
     Inl (ErrReadingPath ''/etc/missing'' (ExternalError ''no such file or directory'')) \<and>
   resolveResourceRef example_world ''default'' secret_ref =
     Inl (ErrSecretGet [] ''absent'' (ExternalError ''secret not found'')) \<and>
   resolveResourceRef example_world ''default'' key_ref =
     Inl (ErrNoKeyInSecret ''token'' [] ''creds'') \<and>
   resolveResourceRef example_world ''default'' literal_ref = Inr ''v1''"
proof -
  have e: "SelectorType env_ref = ResourceSelectorEnv \<and> Env env_ref = Some ''TOKEN'' \<and>
           Getenv example_world ''TOKEN'' = []"
    by (simp add: example_defs reference_defs)
  have f: "SelectorType fs_ref = ResourceSelectorFS \<and> FileSystem fs_ref = Some ''/etc/missing'' \<and>
           ReadFile example_world ''/etc/missing'' =
             Inl (ExternalError ''no such file or directory'')"
    by (simp add: example_defs reference_defs)
  have s: "SelectorType secret_ref = ResourceSelectorSecret \<and>
           SecretRef secret_ref = Some \<lparr>Namespace = [], Name = ''absent'', Key = ''password''\<rparr> \<and>
           GetSecret example_world ''default'' ''absent'' = Inl (ExternalError ''secret not found'')"
    by (simp add: example_defs reference_defs)
  have k: "SelectorType key_ref = ResourceSelectorSecret \<and>
           SecretRef key_ref = Some \<lparr>Namespace = [], Name = ''creds'', Key = ''token''\<rparr> \<and>
           GetSecret example_world ''default'' ''creds'' = Inr [''password'' \<mapsto> ''hunter2''] \<and>
           [''password'' \<mapsto> ''hunter2''] ''token'' = None"
    by (simp add: example_defs reference_defs)
  have l: "SelectorType literal_ref = ResourceSelectorLiteral \<and> LiteralRef literal_ref = Some ''v1''"
    by (simp add: example_defs reference_defs)
  show ?thesis
    using resolveResourceRef_absent_target[where ref = env_ref and name = "''TOKEN''"
        and w = example_world and ns = "''default''"]
      resolveResourceRef_absent_target[where ref = fs_ref and w = example_world
        and p = "''/etc/missing''" and e = "ExternalError ''no such file or directory''"
        and ns = "''default''"]
      resolveResourceRef_absent_target[where ref = secret_ref and w = example_world
        and e = "ExternalError ''secret not found''" and ns = "''default''"
        and sel = "\<lparr>Namespace = [], Name = ''absent'', Key = ''password''\<rparr>"]
      resolveResourceRef_absent_target[where ref = key_ref and w = example_world
        and ns = "''default''"
        and sel = "\<lparr>Namespace = [], Name = ''creds'', Key = ''token''\<rparr>"
        and secret_data = "[''password'' \<mapsto> ''hunter2'']"]
      resolveResourceRef_absent_target[where ref = literal_ref and w = example_world
        and ns = "''default''" and v = "''v1''"]
      e f s k l
    by simp
qed

subsection \<open>An update without outputs\<close>

text \<open>
  \<^verbatim>\<open>GetStackOutputs\<close> never returns the nil map without an error, so the branch
  \<^verbatim>\<open>outs == nil\<close> of the pass, which skips the status write, is never taken.
\<close>

lemma empty_outputs_branch_dead:
  "capture_outputs c sess successResult permalink (Some res) \<noteq> ((emptyResult, None), [])"
  using GetStackOutputs_not_nil[of c "UpOutputs res"] unfolding capture_outputs_def
  by (auto simp: Let_def split: option.splits sum.splits)

text \<open>
  Claim C9 fails on the code. The pass whose update succeeds with an empty output map
  reads the resource again and writes the status with the state Succeeded and the empty
  table of outputs.
\<close>

theorem empty_outputs_status_written:
  "Up changed_calls =
     (\<lparr>StdOut = ''View Live: https://app/2'', StdErr = [], UpOutputs = []\<rparr>, None) \<and>
   GetStackOutputs changed_calls [] = Inr (Some []) \<and>
   Reconcile changed_calls =
     ((\<lparr>Requeue = False, RequeueAfter = 60000000000\<rparr>, None),
      [ClientGetStack, SetupGitAuthOp, SetupWorkdirWithGitRepoOp, EnsureStackOp, SetEnvsOp,
       SetSecretEnvsOp, EmitEvent StackUpdateDetectedEvent, UpOp, GetLatestResource,
       UpdateResourceStatus
         (example_stack\<lparr>Status :=
            \<lparr>Outputs = Some [],
             LastUpdate = Some \<lparr>State = SucceededStackStateMessage,
                                 LastAttemptedCommit = ''beef'', LastSuccessfulCommit = ''beef'',
                                 Permalink = ''https://app/2'', LastResyncTime = 42\<rparr>\<rparr>\<rparr>),
       EmitEvent StackUpdateSuccessfulEvent, CleanupPulumiDir])"
  by (simp add: example_defs pass_defs)

subsection \<open>A status without a last update\<close>









end
